theory Spec2Isabelle
  imports Complex_Main "HOL-Library.Sublist"
begin

section \<open>The job table of the web interface (app.py)\<close>

text \<open>
  \<^verbatim>\<open>JobStatus\<close> is a class of four string constants; every caller of the store passes
  one of them. The \<^verbatim>\<open>jobs\<close> table of \<^verbatim>\<open>init_database\<close> is a list of rows keyed by
  the job id (the primary key), in insertion order. Timestamps are clock readings
  (\<^verbatim>\<open>datetime.now()\<close>), in seconds; the clock is an argument of every operation that
  reads it.
\<close>

datatype job_status = PENDING | RUNNING | COMPLETED | FAILED

type_synonym timestamp = nat

type_synonym job_id = string

record job =
  workflow_type :: string
  status :: job_status
  created_at :: timestamp
  started_at :: "timestamp option"
  completed_at :: "timestamp option"
  parameters :: string
  dem_filename :: string
  error_message :: "string option"
  progress :: int

type_synonym job_table = "(job_id \<times> job) list"

text \<open>
  The exceptions of \<^verbatim>\<open>sqlite3\<close> that the statements of the store raise on the
  arguments considered here: a primary key that exists already, and a Python integer
  that does not fit the 64-bit INTEGER it is bound to.
\<close>

datatype db_error = IntegrityError | OverflowError

text \<open>\<^verbatim>\<open>JobManager.get_job\<close>: \<^verbatim>\<open>SELECT * FROM jobs WHERE id = ?\<close>, first row or None.\<close>

definition get_job :: "job_table \<Rightarrow> job_id \<Rightarrow> job option" where
  "get_job tbl jid = map_of tbl jid"

text \<open>
  \<^verbatim>\<open>JobManager.create_job\<close>: the INSERT of a PENDING row. The fresh uuid and the clock
  are arguments; progress takes the column default 0. An id that is already a key
  violates the primary key and sqlite raises.
\<close>

definition create_job ::
  "job_id \<Rightarrow> timestamp \<Rightarrow> string \<Rightarrow> string \<Rightarrow> string \<Rightarrow> job_table \<Rightarrow> db_error + job_table" where
  "create_job jid now wt dem params tbl =
     (if jid \<in> fst ` set tbl then Inl IntegrityError
      else Inr (tbl @ [(jid, \<lparr>workflow_type = wt, status = PENDING, created_at = now,
                              started_at = None, completed_at = None, parameters = params,
                              dem_filename = dem, error_message = None, progress = 0\<rparr>)]))"

text \<open>
  The UPDATE statements of \<^verbatim>\<open>JobManager.update_status\<close>, on one row: the three branches
  of the source on the new status, each with and without a progress value. The RUNNING
  branch writes \<^verbatim>\<open>started_at = COALESCE(started_at, ?)\<close>; the COMPLETED/FAILED branch
  writes \<^verbatim>\<open>completed_at = ?\<close>; \<^verbatim>\<open>error_message\<close> is written in every branch. No branch
  reads the row's current status. \<open>update_row\<close> and \<open>update_status\<close> are the effect of the
  statement that \<^verbatim>\<open>conn.execute\<close> runs, that is, of a call whose progress value
  \<^verbatim>\<open>sqlite3\<close> binds; \<open>update_status_call\<close> below is the method with the binding in
  front of the statement.
\<close>

definition set_progress :: "int option \<Rightarrow> job \<Rightarrow> job" where
  "set_progress p j = (case p of None \<Rightarrow> j | Some v \<Rightarrow> j\<lparr>progress := v\<rparr>)"

definition update_row ::
  "job_status \<Rightarrow> int option \<Rightarrow> string option \<Rightarrow> timestamp \<Rightarrow> job \<Rightarrow> job" where
  "update_row st p err now j =
     (if st = RUNNING then
        (set_progress p j)\<lparr>status := st, error_message := err,
          started_at := (case started_at j of None \<Rightarrow> Some now | Some t \<Rightarrow> Some t)\<rparr>
      else if st = COMPLETED \<or> st = FAILED then
        (set_progress p j)\<lparr>status := st, error_message := err, completed_at := Some now\<rparr>
      else
        (set_progress p j)\<lparr>status := st, error_message := err\<rparr>)"

text \<open>The UPDATE statement: every row whose id matches is rewritten; no row, no effect.\<close>

definition update_status ::
  "job_id \<Rightarrow> job_status \<Rightarrow> int option \<Rightarrow> string option \<Rightarrow> timestamp \<Rightarrow> job_table \<Rightarrow> job_table" where
  "update_status jid st p err now tbl =
     map (\<lambda>(k, j). if k = jid then (k, update_row st p err now j) else (k, j)) tbl"

text \<open>
  A call of \<^verbatim>\<open>JobManager.update_status\<close>. \<^verbatim>\<open>conn.execute\<close> binds the parameters before
  the statement runs. A Python integer is bound as a signed 64-bit INTEGER: outside
  that range \<^verbatim>\<open>sqlite3\<close> raises OverflowError, the method has no handler, and the table
  is as it was. The other parameters (status, error text, clock text, id) are strings
  or None and always bind.
\<close>

definition sqlite_integer :: "int \<Rightarrow> bool" where
  "sqlite_integer v = (- 9223372036854775808 \<le> v \<and> v \<le> 9223372036854775807)"

definition bindable :: "int option \<Rightarrow> bool" where
  "bindable p = (case p of None \<Rightarrow> True | Some v \<Rightarrow> sqlite_integer v)"


text \<open>\<^verbatim>\<open>DELETE FROM jobs WHERE id = ?\<close>.\<close>

definition delete_row :: "job_id \<Rightarrow> job_table \<Rightarrow> job_table" where
  "delete_row jid tbl = filter (\<lambda>(k, j). k \<noteq> jid) tbl"

text \<open>
  \<^verbatim>\<open>JobManager.cancel_job\<close>: False when the job is unknown or not RUNNING; otherwise
  the job's entry of \<^verbatim>\<open>JobManager.active_containers\<close> is dropped, the row is written
  FAILED with the fixed message, and True is returned.
\<close>

definition cancel_job ::
  "job_id \<Rightarrow> timestamp \<Rightarrow> job_table \<times> (job_id \<rightharpoonup> string)
     \<Rightarrow> bool \<times> job_table \<times> (job_id \<rightharpoonup> string)" where
  "cancel_job jid now w =
     (case w of (tbl, active) \<Rightarrow>
        (case get_job tbl jid of
           None \<Rightarrow> (False, tbl, active)
         | Some j \<Rightarrow>
             if status j \<noteq> RUNNING then (False, tbl, active)
             else (True,
                   update_status jid FAILED None (Some ''Job cancelled by user'') now tbl,
                   active(jid := None))))"

section \<open>Python string operations used by the supervisor and the generator\<close>

text \<open>
  A string is a list of characters with code points below 256. \<^verbatim>\<open>str.startswith\<close>,
  \<^verbatim>\<open>str.replace\<close> (left to right, non-overlapping; an empty pattern matches before
  every character and at the end), \<^verbatim>\<open>str.strip\<close> (the characters for which
  \<^verbatim>\<open>str.isspace\<close> holds, which below 256 are the ten of ASCII, NEL and the no-break
  space), \<^verbatim>\<open>str(int)\<close> and \<^verbatim>\<open>int(float)\<close> (truncation towards zero).
\<close>

definition startswith :: "string \<Rightarrow> string \<Rightarrow> bool" where
  "startswith s p = prefix p s"

fun replace :: "string \<Rightarrow> string \<Rightarrow> string \<Rightarrow> string" where
  "replace old new [] = (if old = [] then new else [])"
| "replace old new (c # cs) =
     (if old = [] then new @ c # replace old new cs
      else if prefix old (c # cs) then new @ replace old new (drop (length old) (c # cs))
      else c # replace old new cs)"

definition is_space :: "char \<Rightarrow> bool" where
  "is_space c = (c \<in> set [CHR '' '', CHR 0x09, CHR 0x0A, CHR 0x0B, CHR 0x0C, CHR 0x0D,
                             CHR 0x1C, CHR 0x1D, CHR 0x1E, CHR 0x1F, CHR 0x85, CHR 0xA0])"

definition strip :: "string \<Rightarrow> string" where
  "strip s = rev (dropWhile is_space (rev (dropWhile is_space s)))"





definition py_int :: "rat \<Rightarrow> int" where
  "py_int x = (if 0 \<le> x then \<lfloor>x\<rfloor> else \<lceil>x\<rceil>)"

text \<open>
  \<^verbatim>\<open>float(s)\<close> is Python's own and is an argument \<open>pf\<close> of the supervisor: the value
  of the finite double it returns, or None where the supervisor's \<^verbatim>\<open>try\<close> block
  raises before the store is called (\<^verbatim>\<open>float\<close> raises ValueError, or it returns
  nan or an infinity and \<^verbatim>\<open>int\<close> raises). Every statement about the supervisor holds
  for every \<open>pf\<close>. \<open>decimal_float\<close> takes the place of \<open>pf\<close> in the evaluations at
  concrete streams, which apply it to unsigned integer literals of at most 15 digits
  only; there it is the value \<^verbatim>\<open>float\<close> returns, which a double holds exactly. On any
  other payload it is None, whatever \<^verbatim>\<open>float\<close> does.
\<close>

type_synonym float_parser = "string \<Rightarrow> rat option"

definition digit_val :: "char \<Rightarrow> nat" where
  "digit_val c = of_char c - 48"

definition is_digit :: "char \<Rightarrow> bool" where
  "is_digit c = (48 \<le> (of_char c :: nat) \<and> (of_char c :: nat) \<le> 57)"

definition decimal_float :: float_parser where
  "decimal_float s =
     (let ds = strip s in
      if ds \<noteq> [] \<and> length ds \<le> 15 \<and> list_all is_digit ds
      then Some (of_nat (foldl (\<lambda>a c. 10 * a + digit_val c) 0 ds))
      else None)"








section \<open>The supervisor: execute\_containerized\_workflow (app.py)\<close>

text \<open>
  A line of the progress stream comes with the clock reading at which the supervisor
  handles it. The stream ends by closing or by raising. Every effect of the supervisor
  on the table is a call of \<^verbatim>\<open>job_manager.update_status\<close> that returns; such a call is
  recorded with its arguments (status, progress, error) and the clock. The progress
  values of the recorded calls are 5, 100, None and the integers that pass the test of
  \<open>loop_step\<close> below, so each of them binds and the call is the UPDATE statement.
\<close>

datatype stream_end = Closed | Raised string

datatype call = Call job_status "int option" "string option" timestamp

fun call_status :: "call \<Rightarrow> job_status" where
  "call_status (Call st p err t) = st"

fun call_progress :: "call \<Rightarrow> int option" where
  "call_progress (Call st p err t) = p"

fun apply_call :: "job_id \<Rightarrow> job_table \<Rightarrow> call \<Rightarrow> job_table" where
  "apply_call jid tbl (Call st p err t) = update_status jid st p err t tbl"

definition apply_calls :: "job_id \<Rightarrow> call list \<Rightarrow> job_table \<Rightarrow> job_table" where
  "apply_calls jid cs tbl = foldl (apply_call jid) tbl cs"

text \<open>
  The body of the \<^verbatim>\<open>PROGRESS:\<close> branch up to the comparison: the prefix is removed,
  the text stripped, and when it holds a percent sign the part before the first one is
  parsed.
\<close>

definition parse_progress :: "float_parser \<Rightarrow> string \<Rightarrow> rat option" where
  "parse_progress pf l =
     (let progress_text = strip (replace ''PROGRESS:'' [] l) in
      if CHR ''%'' \<in> set progress_text
      then pf (takeWhile (\<lambda>c. c \<noteq> CHR ''%'') progress_text)
      else None)"

text \<open>
  The body of the \<^verbatim>\<open>async for\<close> loop on one line, given \<open>last_progress\<close>: nothing
  happens (\<open>Skip\<close>), the store is written and \<open>last_progress\<close> takes a new value
  (\<open>Write\<close>), or the store is written and the loop is left by \<^verbatim>\<open>break\<close> (\<open>Stop\<close>).
  In the \<^verbatim>\<open>PROGRESS:\<close> branch the call of \<^verbatim>\<open>update_status\<close> and the assignment to
  \<open>last_progress\<close> after it are inside the \<^verbatim>\<open>try\<close>: when the integer part of the
  percentage does not bind, the call raises OverflowError, the handler logs a warning,
  and neither the table nor \<open>last_progress\<close> changes.
\<close>

datatype step = Skip | Write call rat | Stop call

definition loop_step :: "float_parser \<Rightarrow> rat \<Rightarrow> timestamp \<Rightarrow> string \<Rightarrow> step" where
  "loop_step pf last_progress t l =
     (if startswith l ''PROGRESS:'' then
        (case parse_progress pf l of
           None \<Rightarrow> Skip
         | Some progress_pct \<Rightarrow>
             if progress_pct \<noteq> last_progress
             then (if bindable (Some (py_int progress_pct))
                   then Write (Call RUNNING (Some (py_int progress_pct)) None t) progress_pct
                   else Skip)
             else Skip)
      else if startswith l ''STATUS:'' then Skip
      else if startswith l ''COMPLETED:'' then Stop (Call COMPLETED (Some 100) None t)
      else if startswith l ''ERROR:'' \<or> startswith l ''FAILED:'' then
        Stop (Call FAILED None (Some (strip (replace ''FAILED:'' [] (replace ''ERROR:'' [] l)))) t)
      else Skip)"

text \<open>
  The \<^verbatim>\<open>async for\<close> loop when no other request writes the job's row while it runs:
  the calls it makes and whether a terminal marker ended it (\<^verbatim>\<open>break\<close>).
  \<open>last_progress\<close> starts at 0 in the caller.
\<close>

fun progress_loop ::
  "float_parser \<Rightarrow> rat \<Rightarrow> (timestamp \<times> string) list \<Rightarrow> call list \<times> bool" where
  "progress_loop pf last_progress [] = ([], False)"
| "progress_loop pf last_progress ((t, l) # ls) =
     (case loop_step pf last_progress t l of
        Skip \<Rightarrow> progress_loop pf last_progress ls
      | Write c progress_pct \<Rightarrow>
          (case progress_loop pf progress_pct ls of (cs, stopped) \<Rightarrow> (c # cs, stopped))
      | Stop c \<Rightarrow> ([c], True))"

text \<open>
  The final status check after the loop: a job that is still RUNNING is written
  COMPLETED with progress 100.
\<close>

definition final_status_check :: "job_id \<Rightarrow> timestamp \<Rightarrow> job_table \<Rightarrow> call list" where
  "final_status_check jid t tbl =
     (case get_job tbl jid of
        None \<Rightarrow> []
      | Some j \<Rightarrow> if status j = RUNNING then [Call COMPLETED (Some 100) None t] else [])"

text \<open>
  The whole function when no other request writes the job's row while it runs: RUNNING
  with progress 5 at \<open>t0\<close>; FAILED at once when Docker is not available; otherwise the
  loop, then the final check at \<open>t1\<close>, or the \<^verbatim>\<open>except\<close> branch at \<open>t1\<close> when the
  stream raised. The final check then reads the table as the calls of this run have
  left it.
\<close>

definition workflow_calls ::
  "float_parser \<Rightarrow> bool \<Rightarrow> job_id \<Rightarrow> timestamp \<Rightarrow> (timestamp \<times> string) list
     \<Rightarrow> stream_end \<Rightarrow> timestamp \<Rightarrow> job_table \<Rightarrow> call list" where
  "workflow_calls pf docker_ok jid t0 ls ending t1 tbl =
     (let c0 = Call RUNNING (Some 5) None t0 in
      if \<not> docker_ok
      then [c0, Call FAILED None (Some ''Docker not available or image not found'') t1]
      else
        (case progress_loop pf 0 ls of
           (cs, stopped) \<Rightarrow>
             (c0 # cs) @
             (case ending of
                Raised e \<Rightarrow>
                  if stopped then final_status_check jid t1 (apply_calls jid (c0 # cs) tbl)
                  else [Call FAILED None (Some (''Container execution failed: '' @ e)) t1]
              | Closed \<Rightarrow> final_status_check jid t1 (apply_calls jid (c0 # cs) tbl))))"

definition execute_containerized_workflow ::
  "float_parser \<Rightarrow> bool \<Rightarrow> job_id \<Rightarrow> timestamp \<Rightarrow> (timestamp \<times> string) list
     \<Rightarrow> stream_end \<Rightarrow> timestamp \<Rightarrow> job_table \<Rightarrow> job_table" where
  "execute_containerized_workflow pf docker_ok jid t0 ls ending t1 tbl =
     apply_calls jid (workflow_calls pf docker_ok jid t0 ls ending t1 tbl) tbl"

section \<open>The supervisor and cancel requests on one table\<close>






section \<open>The generator of the subprocess path (workflow\_manager.py)\<close>













definition terminal_marker :: "string \<Rightarrow> bool" where
  "terminal_marker l =
     (startswith l ''COMPLETED:'' \<or> startswith l ''ERROR:'' \<or> startswith l ''FAILED:'')"

section \<open>Terminal states and a sample table\<close>

text \<open>The terminal states of a job.\<close>

definition terminal :: "job_status \<Rightarrow> bool" where
  "terminal st = (st = COMPLETED \<or> st = FAILED)"

text \<open>
  A table holding the one row that \<^verbatim>\<open>create_job\<close> writes for job \<open>''j''\<close>; the concrete
  evaluations below start from it.
\<close>

definition example_job :: job where
  "example_job = \<lparr>workflow_type = ''sol'', status = PENDING, created_at = 0,
     started_at = None, completed_at = None, parameters = ''{}'',
     dem_filename = ''j_dem.tif'', error_message = None, progress = 0\<rparr>"

definition example_table :: job_table where
  "example_table = [(''j'', example_job)]"

section \<open>Reading aids for the statements\<close>

text \<open>The status and progress a client sees for a job.\<close>

definition stored :: "job_table \<Rightarrow> job_id \<Rightarrow> (job_status \<times> int) option" where
  "stored tbl jid = map_option (\<lambda>j. (status j, progress j)) (get_job tbl jid)"

text \<open>
  The percentages of a stream in stream order: each \<^verbatim>\<open>PROGRESS:\<close> line whose payload
  parses contributes its value; every other line contributes nothing.
\<close>

definition percentages :: "float_parser \<Rightarrow> string list \<Rightarrow> rat list" where
  "percentages pf lines =
     List.map_filter (\<lambda>l. if startswith l ''PROGRESS:'' then parse_progress pf l else None) lines"


definition outcome :: "job_table \<Rightarrow> job_id \<Rightarrow> (job_status \<times> string option) option" where
  "outcome tbl jid = map_option (\<lambda>j. (status j, error_message j)) (get_job tbl jid)"




text \<open>
  The percentages of a stream that the store can hold: those whose integer part binds
  as a 64-bit INTEGER.
\<close>

definition storable_percentages :: "float_parser \<Rightarrow> string list \<Rightarrow> rat list" where
  "storable_percentages pf lines = filter (\<lambda>v. sqlite_integer (py_int v)) (percentages pf lines)"

text \<open>
  \<open>decimal_float\<close> with one more literal: \<^verbatim>\<open>float("1e19")\<close> is the double
  \<open>10\<^sup>1\<^sup>9\<close>, whose integer part is above the 64-bit range.
\<close>

definition decimal_float_1e19 :: float_parser where
  "decimal_float_1e19 s =
     (if strip s = ''1e19'' then Some 10000000000000000000 else decimal_float s)"




section \<open>The filesystem under the web interface\<close>

text \<open>
  A path is a name inside one of the three directories the code works in. The
  filesystem is the list of the entries that exist, each with a size in bytes (for a
  directory, the total of the files below it, which is what
  \<^verbatim>\<open>_get_directory_size_mb\<close> sums), and the entries whose removal raises, with the text of
  the exception. \<^verbatim>\<open>shutil.rmtree\<close> and \<^verbatim>\<open>Path.unlink\<close> are both \<open>remove_path\<close>: the
  result is the exception text, if one was raised, and the filesystem left behind.
\<close>

datatype dir = RESULTS_DIR | UPLOADS_DIR | TEMP_DIR

type_synonym path = "dir \<times> string"

record filesystem =
  files :: "(path \<times> nat) list"
  unremovable :: "(path \<times> string) list"

definition path_exists :: "filesystem \<Rightarrow> path \<Rightarrow> bool" where
  "path_exists fs p = (p \<in> set (map fst (files fs)))"

definition remove_path :: "path \<Rightarrow> filesystem \<Rightarrow> string option \<times> filesystem" where
  "remove_path p fs =
     (case map_of (unremovable fs) p of
        Some msg \<Rightarrow> (Some msg, fs)
      | None \<Rightarrow> (None, fs\<lparr>files := filter (\<lambda>(q, n). q \<noteq> p) (files fs)\<rparr>))"

definition remove_if_exists :: "path \<Rightarrow> filesystem \<Rightarrow> string option \<times> filesystem" where
  "remove_if_exists p fs = (if path_exists fs p then remove_path p fs else (None, fs))"

text \<open>\<^verbatim>\<open>UPLOADS_DIR.glob(f"{job_id}_*")\<close>: the uploads whose name starts with the job id and an underscore.\<close>

definition glob_uploads :: "job_id \<Rightarrow> filesystem \<Rightarrow> path list" where
  "glob_uploads jid fs =
     filter (\<lambda>p. fst p = UPLOADS_DIR \<and> prefix (jid @ ''_'') (snd p)) (map fst (files fs))"

fun unlink_all :: "path list \<Rightarrow> filesystem \<Rightarrow> string option \<times> filesystem" where
  "unlink_all [] fs = (None, fs)"
| "unlink_all (p # ps) fs =
     (case remove_path p fs of
        (Some e, fs') \<Rightarrow> (Some e, fs')
      | (None, fs') \<Rightarrow> unlink_all ps fs')"

section \<open>Deleting a job (app.py)\<close>

text \<open>
  The file clean-up of \<^verbatim>\<open>JobManager.delete_job\<close>, in the order of the source: the results
  directory, the results zip, the uploads of the job. The first exception ends it.
\<close>

definition remove_artifacts :: "job_id \<Rightarrow> filesystem \<Rightarrow> string option \<times> filesystem" where
  "remove_artifacts jid fs =
     (case remove_if_exists (RESULTS_DIR, jid) fs of
        (Some e, fs1) \<Rightarrow> (Some e, fs1)
      | (None, fs1) \<Rightarrow>
          (case remove_if_exists (RESULTS_DIR, jid @ ''_results.zip'') fs1 of
             (Some e, fs2) \<Rightarrow> (Some e, fs2)
           | (None, fs2) \<Rightarrow> unlink_all (glob_uploads jid fs2) fs2))"

text \<open>
  \<^verbatim>\<open>JobManager.delete_job\<close>: the result pair \<^verbatim>\<open>(success, error_message)\<close>, the table and
  the filesystem. The row is deleted and committed before the first file is touched; an
  exception of the clean-up is caught and reported in the result.
\<close>

definition delete_job ::
  "job_id \<Rightarrow> job_table \<times> filesystem \<Rightarrow> (bool \<times> string) \<times> job_table \<times> filesystem" where
  "delete_job jid w =
     (case w of (tbl, fs) \<Rightarrow>
        (case get_job tbl jid of
           None \<Rightarrow> ((False, ''Job not found''), tbl, fs)
         | Some j \<Rightarrow>
             if status j = RUNNING then ((False, ''Cannot delete running job''), tbl, fs)
             else
               (case remove_artifacts jid fs of
                  (Some e, fs') \<Rightarrow>
                    ((False, ''Database or filesystem error: '' @ e), delete_row jid tbl, fs')
                | (None, fs') \<Rightarrow> ((True, ''''), delete_row jid tbl, fs'))))"

text \<open>
  \<^verbatim>\<open>WorkflowManager.cleanup_job_data\<close>. \<^verbatim>\<open>shutil\<close> is imported inside the branch that
  removes the scratch directory and nowhere else in the module, so it is a local name
  that is bound only when that branch ran: removing the results without it raises, and
  the function's own \<^verbatim>\<open>except\<close> swallows every exception.
\<close>

definition cleanup_job_data :: "job_id \<Rightarrow> bool \<Rightarrow> filesystem \<Rightarrow> filesystem" where
  "cleanup_job_data jid keep_results fs =
     (let shutil_bound = path_exists fs (TEMP_DIR, jid) in
      case remove_if_exists (TEMP_DIR, jid) fs of
        (Some e, fs1) \<Rightarrow> fs1
      | (None, fs1) \<Rightarrow>
          if \<not> keep_results \<and> path_exists fs1 (RESULTS_DIR, jid) \<and> shutil_bound
          then snd (remove_path (RESULTS_DIR, jid) fs1)
          else fs1)"

text \<open>The DELETE endpoint: the response and what is left of the table and the files.\<close>

datatype response = Success string | HTTPException nat string

definition delete_job_endpoint ::
  "job_id \<Rightarrow> job_table \<times> filesystem \<Rightarrow> response \<times> job_table \<times> filesystem" where
  "delete_job_endpoint jid w =
     (case delete_job jid w of
        ((success, error_msg), tbl, fs) \<Rightarrow>
          if success then (Success ''Job deleted successfully'', tbl, cleanup_job_data jid False fs)
          else if error_msg = ''Job not found'' then (HTTPException 404 error_msg, tbl, fs)
          else if error_msg = ''Cannot delete running job''
          then (HTTPException 400 ''Cannot delete running job. Please cancel it first.'', tbl, fs)
          else (HTTPException 500 error_msg, tbl, fs))"

text \<open>A job of the sample kind in a given status, and files for it.\<close>

definition example_job_in :: "job_status \<Rightarrow> job" where
  "example_job_in st = example_job\<lparr>status := st\<rparr>"

definition example_files :: filesystem where
  "example_files =
     \<lparr>files = [((RESULTS_DIR, ''j''), 8), ((RESULTS_DIR, ''j_results.zip''), 2),
               ((UPLOADS_DIR, ''j_dem.tif''), 4), ((UPLOADS_DIR, ''k_dem.tif''), 4)],
      unremovable = []\<rparr>"

definition example_locked_files :: filesystem where
  "example_locked_files = example_files\<lparr>unremovable := [((RESULTS_DIR, ''j''), ''Permission denied'')]\<rparr>"

text \<open>The filesystem restricted to the paths that satisfy \<open>Q\<close>.\<close>

definition keep :: "(path \<Rightarrow> bool) \<Rightarrow> filesystem \<Rightarrow> filesystem" where
  "keep Q fs = fs\<lparr>files := filter (\<lambda>(q, n). Q q) (files fs)\<rparr>"

section \<open>Cancelling a job (app.py, workflow\_manager.py)\<close>

text \<open>
  \<^verbatim>\<open>WorkflowManager.active_containers\<close> holds, per job, what the execution path stored
  there: the Docker SDK path stores a container object (workflow\_manager.py line 469),
  the subprocess path stores the \<^verbatim>\<open>asyncio\<close> process of \<^verbatim>\<open>docker run\<close> (line 891).
  \<open>running_units\<close> are the execution units that are alive.
\<close>

datatype handle = DockerContainer string | AsyncioProcess nat

record engine =
  active_containers :: "(job_id \<times> handle) list"
  running_units :: "handle list"

text \<open>
  \<^verbatim>\<open>WorkflowManager.stop_job_container\<close> calls \<^verbatim>\<open>container.stop(timeout=10)\<close> and
  \<^verbatim>\<open>container.remove(force=True)\<close> on the stored object and then drops the entry. A
  container object has both methods. An \<^verbatim>\<open>asyncio\<close> process has neither (its methods
  are wait, communicate, send\_signal, terminate and kill): the call raises
  AttributeError, the function's \<^verbatim>\<open>except\<close> catches it and returns False, and nothing
  has been stopped or dropped. Failures of the Docker daemon itself are left out: on a
  container object both calls succeed.
\<close>

definition stop_job_container :: "job_id \<Rightarrow> engine \<Rightarrow> bool \<times> engine" where
  "stop_job_container jid eng =
     (case map_of (active_containers eng) jid of
        None \<Rightarrow> (False, eng)
      | Some (DockerContainer c) \<Rightarrow>
          (True, eng\<lparr>active_containers := filter (\<lambda>(k, h). k \<noteq> jid) (active_containers eng),
                      running_units := removeAll (DockerContainer c) (running_units eng)\<rparr>)
      | Some (AsyncioProcess pid) \<Rightarrow> (False, eng))"

fun status_value :: "job_status \<Rightarrow> string" where
  "status_value PENDING = ''pending''"
| "status_value RUNNING = ''running''"
| "status_value COMPLETED = ''completed''"
| "status_value FAILED = ''failed''"

text \<open>
  The cancel endpoint: 404 for an unknown job, 400 for a job that is not RUNNING;
  otherwise the container is asked to stop (the answer is only logged) and
  \<^verbatim>\<open>job_manager.cancel_job\<close> writes the job FAILED.
\<close>

definition cancel_job_endpoint ::
  "job_id \<Rightarrow> timestamp \<Rightarrow> job_table \<times> (job_id \<rightharpoonup> string) \<times> engine
     \<Rightarrow> response \<times> job_table \<times> (job_id \<rightharpoonup> string) \<times> engine" where
  "cancel_job_endpoint jid now w =
     (case w of (tbl, jm_active, eng) \<Rightarrow>
        (case get_job tbl jid of
           None \<Rightarrow> (HTTPException 404 ''Job not found'', tbl, jm_active, eng)
         | Some j \<Rightarrow>
             if status j \<noteq> RUNNING
             then (HTTPException 400 (''Job is not running (status: '' @ status_value (status j) @ '')''),
                   tbl, jm_active, eng)
             else
               (case stop_job_container jid eng of
                  (container_stopped, eng') \<Rightarrow>
                    (case cancel_job jid now (tbl, jm_active) of
                       (success, tbl', jm_active') \<Rightarrow>
                         (if success then Success ''Job cancelled successfully''
                          else HTTPException 500 ''Failed to cancel job'',
                          tbl', jm_active', eng')))))"

definition example_engine :: engine where
  "example_engine =
     \<lparr>active_containers = [(''j'', AsyncioProcess 4242)], running_units = [AsyncioProcess 4242]\<rparr>"

section \<open>The worker's reconnect loop (workflow\_manager.py)\<close>

record worker_config =
  master_host :: string
  master_port :: nat
  worker_cores :: nat
  worker_memory :: string
  worker_disk :: string
  reconnect_attempts :: int
  reconnect_delay :: nat

text \<open>
  What becomes of one \<^verbatim>\<open>work_queue_worker\<close> process: \<^verbatim>\<open>Popen\<close> raises, the process
  exits with a code, or it keeps running. The environment is the list of what becomes
  of the successive processes; past its end a process keeps running. The supervisor's
  actions are recorded: a process started, a sleep of so many seconds.
\<close>

datatype worker_run = PopenFails | Exits int | KeepsRunning

datatype worker_event = Started | Slept nat

text \<open>
  \<^verbatim>\<open>start_worker_node\<close> (on a node of type WORKER) starts a process and its monitor
  thread; \<^verbatim>\<open>_monitor_worker_process\<close> waits for the exit code and, when it is not 0 and
  \<^verbatim>\<open>reconnect_attempts > 0\<close>, sleeps and calls \<^verbatim>\<open>start_worker_node\<close> again.
\<close>

fun start_worker_node :: "worker_config \<Rightarrow> worker_run list \<Rightarrow> worker_event list"
  and monitor_worker_process :: "worker_config \<Rightarrow> worker_run \<Rightarrow> worker_run list \<Rightarrow> worker_event list"
where
  "start_worker_node cfg [] = [Started]"
| "start_worker_node cfg (PopenFails # rs) = []"
| "start_worker_node cfg (r # rs) = Started # monitor_worker_process cfg r rs"
| "monitor_worker_process cfg (Exits return_code) rs =
     (if return_code \<noteq> 0 \<and> reconnect_attempts cfg > 0
      then Slept (reconnect_delay cfg) # start_worker_node cfg rs
      else [])"
| "monitor_worker_process cfg r rs = []"

definition example_worker_config :: worker_config where
  "example_worker_config =
     \<lparr>master_host = ''localhost'', master_port = 9123, worker_cores = 4, worker_memory = ''8G'',
      worker_disk = ''50G'', reconnect_attempts = 1, reconnect_delay = 10\<rparr>"

section \<open>Retention (app.py, cleanup\_jobs.py)\<close>

text \<open>
  The summary of \<^verbatim>\<open>JobManager.cleanup_old_jobs\<close>. Sizes are megabytes: bytes divided by
  \<open>1024 * 1024\<close>, added up as rationals where Python adds floats. The comparison of
  the SQL query, \<^verbatim>\<open>datetime(completed_at) < ?\<close>, is an argument \<open>is_before\<close>; the
  cutoffs are the clock minus the retention, in seconds. The retention arguments are
  those for which Python computes the cutoffs, that is, for which \<^verbatim>\<open>timedelta\<close> and
  the subtraction from the clock stay in the range of its dates.
\<close>

record cleanup_stats =
  processed_jobs :: nat
  successful_cleaned :: nat
  failed_deleted :: nat
  space_freed_mb :: rat
  errors :: "string list"

definition size_mb :: "filesystem \<Rightarrow> path \<Rightarrow> rat" where
  "size_mb fs p = (case map_of (files fs) p of None \<Rightarrow> 0 | Some n \<Rightarrow> of_nat n / (1024 * 1024))"

definition eligible ::
  "(timestamp \<Rightarrow> int \<Rightarrow> bool) \<Rightarrow> job_status \<Rightarrow> int \<Rightarrow> job_table \<Rightarrow> (job_id \<times> string) list" where
  "eligible is_before st cutoff tbl =
     map (\<lambda>(k, j). (k, dem_filename j))
       (filter (\<lambda>(k, j). status j = st \<and>
                  (case completed_at j of None \<Rightarrow> False | Some c \<Rightarrow> is_before c cutoff)) tbl)"

text \<open>
  The step that occurs three times in the live branch: when the path exists its size is
  added to \<^verbatim>\<open>space_freed_mb\<close> and it is removed.
\<close>

definition free_path ::
  "path \<Rightarrow> cleanup_stats \<times> filesystem \<Rightarrow> string option \<times> cleanup_stats \<times> filesystem" where
  "free_path p w =
     (case w of (st, fs) \<Rightarrow>
        if path_exists fs p
        then (case remove_path p fs of
                (e, fs') \<Rightarrow> (e, st\<lparr>space_freed_mb := space_freed_mb st + size_mb fs p\<rparr>, fs'))
        else (None, st, fs))"

definition count_successful :: "cleanup_stats \<Rightarrow> cleanup_stats" where
  "count_successful st =
     st\<lparr>successful_cleaned := successful_cleaned st + 1, processed_jobs := processed_jobs st + 1\<rparr>"

definition count_failed :: "cleanup_stats \<Rightarrow> cleanup_stats" where
  "count_failed st =
     st\<lparr>failed_deleted := failed_deleted st + 1, processed_jobs := processed_jobs st + 1\<rparr>"

text \<open>The loop over the COMPLETED jobs: the results directory goes, the row stays.\<close>

fun clean_successful ::
  "bool \<Rightarrow> (job_id \<times> string) list \<Rightarrow> cleanup_stats \<times> filesystem
     \<Rightarrow> string option \<times> cleanup_stats \<times> filesystem" where
  "clean_successful dry_run [] w = (None, w)"
| "clean_successful dry_run ((jid, dem) # rest) w =
     (if dry_run then clean_successful dry_run rest (count_successful (fst w), snd w)
      else
        (case free_path (RESULTS_DIR, jid) w of
           (Some e, st, fs) \<Rightarrow> (Some e, st, fs)
         | (None, st, fs) \<Rightarrow> clean_successful dry_run rest (count_successful st, fs)))"

text \<open>
  The loop over the FAILED jobs: the results directory, the uploaded DEM file when the
  row names one, and the row (deleted on the open connection, not yet committed).
\<close>

fun clean_failed ::
  "bool \<Rightarrow> (job_id \<times> string) list \<Rightarrow> cleanup_stats \<times> job_table \<times> filesystem
     \<Rightarrow> string option \<times> cleanup_stats \<times> job_table \<times> filesystem" where
  "clean_failed dry_run [] w = (None, w)"
| "clean_failed dry_run ((jid, dem) # rest) (st, tbl, fs) =
     (if dry_run then clean_failed dry_run rest (count_failed st, tbl, fs)
      else
        (case free_path (RESULTS_DIR, jid) (st, fs) of
           (Some e, st1, fs1) \<Rightarrow> (Some e, st1, tbl, fs1)
         | (None, st1, fs1) \<Rightarrow>
             (case (if dem \<noteq> [] then free_path (UPLOADS_DIR, dem) (st1, fs1) else (None, st1, fs1)) of
                (Some e, st2, fs2) \<Rightarrow> (Some e, st2, tbl, fs2)
              | (None, st2, fs2) \<Rightarrow>
                  clean_failed dry_run rest (count_failed st2, delete_row jid tbl, fs2))))"

text \<open>
  \<^verbatim>\<open>JobManager.cleanup_old_jobs\<close>. An exception leaves the loops for the \<^verbatim>\<open>except\<close>
  branch: the message is appended to \<^verbatim>\<open>errors\<close> and the deletions of rows, never
  committed, are lost; the files removed so far stay removed.
\<close>

definition cleanup_old_jobs ::
  "(timestamp \<Rightarrow> int \<Rightarrow> bool) \<Rightarrow> int \<Rightarrow> int \<Rightarrow> bool \<Rightarrow> timestamp \<Rightarrow> job_table \<times> filesystem
     \<Rightarrow> cleanup_stats \<times> job_table \<times> filesystem" where
  "cleanup_old_jobs is_before success_retention_days failed_retention_hours dry_run now w =
     (case w of (tbl, fs) \<Rightarrow>
        (let stats0 = \<lparr>processed_jobs = 0, successful_cleaned = 0, failed_deleted = 0,
                       space_freed_mb = 0, errors = []\<rparr>;
             success_cutoff = int now - 86400 * success_retention_days;
             failed_cutoff = int now - 3600 * failed_retention_hours
         in case clean_successful dry_run (eligible is_before COMPLETED success_cutoff tbl) (stats0, fs) of
              (Some e, st, fs1) \<Rightarrow>
                (st\<lparr>errors := errors st @ [''Error during cleanup: '' @ e]\<rparr>, tbl, fs1)
            | (None, st, fs1) \<Rightarrow>
                (case clean_failed dry_run (eligible is_before FAILED failed_cutoff tbl) (st, tbl, fs1) of
                   (Some e, st', tbl', fs2) \<Rightarrow>
                     (st'\<lparr>errors := errors st' @ [''Error during cleanup: '' @ e]\<rparr>, tbl, fs2)
                 | (None, st', tbl', fs2) \<Rightarrow> (st', if dry_run then tbl else tbl', fs2))))"

text \<open>
  \<^verbatim>\<open>JobCleanupManager.cleanup_job_data\<close> of cleanup\_jobs.py, for one selected job: the
  per-job summary, the table and the files. Here the size is computed in both modes; in
  the live mode it is added after the removal, so a removal that raises adds nothing.
\<close>

record job_cleanup =
  data_deleted :: bool
  config_preserved :: bool
  files_deleted :: "path list"
  directories_deleted :: "path list"
  size_freed_mb :: rat
  job_errors :: "string list"

definition jcm_free_path ::
  "bool \<Rightarrow> path \<Rightarrow> job_cleanup \<times> filesystem \<Rightarrow> string option \<times> job_cleanup \<times> filesystem" where
  "jcm_free_path dry_run p w =
     (case w of (st, fs) \<Rightarrow>
        if dry_run then (None, st\<lparr>size_freed_mb := size_freed_mb st + size_mb fs p\<rparr>, fs)
        else (case remove_path p fs of
                (Some e, fs') \<Rightarrow> (Some e, st, fs')
              | (None, fs') \<Rightarrow> (None, st\<lparr>size_freed_mb := size_freed_mb st + size_mb fs p\<rparr>, fs')))"

definition jcm_cleanup_job_data ::
  "bool \<Rightarrow> job_id \<times> job \<Rightarrow> bool \<Rightarrow> job_table \<times> filesystem
     \<Rightarrow> job_cleanup \<times> job_table \<times> filesystem" where
  "jcm_cleanup_job_data dry_run row keep_job_config w =
     (case (row, w) of ((jid, j), (tbl, fs)) \<Rightarrow>
        (let st0 = \<lparr>data_deleted = False, config_preserved = keep_job_config, files_deleted = [],
                     directories_deleted = [], size_freed_mb = 0, job_errors = []\<rparr>;
             failed = (\<lambda>e st. st\<lparr>job_errors := job_errors st @ [''Error cleaning up job '' @ jid @ '': '' @ e]\<rparr>)
         in case (if path_exists fs (RESULTS_DIR, jid)
                  then (case jcm_free_path dry_run (RESULTS_DIR, jid) (st0, fs) of
                          (None, st, fs') \<Rightarrow>
                            (None, st\<lparr>directories_deleted := directories_deleted st @ [(RESULTS_DIR, jid)],
                                       data_deleted := True\<rparr>, fs')
                        | r \<Rightarrow> r)
                  else (None, st0, fs)) of
              (Some e, st1, fs1) \<Rightarrow> (failed e st1, tbl, fs1)
            | (None, st1, fs1) \<Rightarrow>
                (case (if dem_filename j \<noteq> [] \<and> path_exists fs1 (UPLOADS_DIR, dem_filename j)
                       then (case jcm_free_path dry_run (UPLOADS_DIR, dem_filename j) (st1, fs1) of
                               (None, st, fs') \<Rightarrow>
                                 (None, st\<lparr>files_deleted := files_deleted st @ [(UPLOADS_DIR, dem_filename j)]\<rparr>, fs')
                             | r \<Rightarrow> r)
                       else (None, st1, fs1)) of
                   (Some e, st2, fs2) \<Rightarrow> (failed e st2, tbl, fs2)
                 | (None, st2, fs2) \<Rightarrow>
                     if keep_job_config then (st2, tbl, fs2)
                     else (st2\<lparr>config_preserved := False\<rparr>,
                           if dry_run then tbl else delete_row jid tbl, fs2))))"

text \<open>A COMPLETED job finished at clock 100.\<close>

definition example_completed_table :: job_table where
  "example_completed_table =
     [(''j'', example_job\<lparr>status := COMPLETED, completed_at := Some 100, progress := 100\<rparr>)]"

text \<open>
  The comparison of the query on clock readings in seconds counted from a midnight, so
  that a calendar day is 86400 of them. SQLite compares two texts:
  \<^verbatim>\<open>datetime(completed_at)\<close> is \<^verbatim>\<open>YYYY-MM-DD HH:MM:SS\<close>, with a space, and the
  cutoff is the \<^verbatim>\<open>isoformat\<close> text \<^verbatim>\<open>YYYY-MM-DDTHH:MM:SS\<close>, with the letter T. The
  dates decide when they differ, and on the same date the space sorts below the T: a
  job is selected when it finished on the calendar day of the cutoff or on an earlier
  one.
\<close>

definition earlier :: "timestamp \<Rightarrow> int \<Rightarrow> bool" where
  "earlier c cutoff = (int c div 86400 \<le> cutoff div 86400)"

section \<open>Lookup after a write\<close>

lemma get_job_update_status:
  "get_job (update_status jid st p err now tbl) k =
     (if k = jid then map_option (update_row st p err now) (get_job tbl k) else get_job tbl k)"
  by (induction tbl) (auto simp: get_job_def update_status_def)

lemma get_job_delete_row:
  "get_job (delete_row jid tbl) k = (if k = jid then None else get_job tbl k)"
  by (induction tbl) (auto simp: get_job_def delete_row_def)

lemma status_update_row: "status (update_row st p err now j) = st"
  by (simp add: update_row_def set_progress_def split: option.split)

section \<open>One line of the stream\<close>

lemma status_not_marker: "startswith l ''STATUS:'' \<Longrightarrow> \<not> terminal_marker l"
  by (auto simp: startswith_def terminal_marker_def prefix_def)

lemma progress_not_marker: "startswith l ''PROGRESS:'' \<Longrightarrow> \<not> terminal_marker l"
  by (auto simp: startswith_def terminal_marker_def prefix_def)

lemma loop_step_Write:
  "loop_step pf lp t l = Write c v \<Longrightarrow>
     startswith l ''PROGRESS:'' \<and> parse_progress pf l = Some v \<and> v \<noteq> lp
     \<and> sqlite_integer (py_int v) \<and> c = Call RUNNING (Some (py_int v)) None t"
  by (auto simp: loop_step_def bindable_def split: if_splits option.splits)

lemma loop_step_Stop:
  "loop_step pf lp t l = Stop c \<Longrightarrow>
     terminal_marker l \<and> \<not> startswith l ''PROGRESS:'' \<and> \<not> startswith l ''STATUS:''
     \<and> c = (if startswith l ''COMPLETED:'' then Call COMPLETED (Some 100) None t
            else Call FAILED None
                   (Some (strip (replace ''FAILED:'' [] (replace ''ERROR:'' [] l)))) t)"
  by (auto simp: loop_step_def terminal_marker_def split: if_splits option.splits)

lemma loop_step_marker:
  "terminal_marker l \<Longrightarrow>
     loop_step pf lp t l =
       Stop (if startswith l ''COMPLETED:'' then Call COMPLETED (Some 100) None t
             else Call FAILED None
                    (Some (strip (replace ''FAILED:'' [] (replace ''ERROR:'' [] l)))) t)"
  using status_not_marker[of l] progress_not_marker[of l]
  by (auto simp: loop_step_def terminal_marker_def)

lemma loop_step_Stop_terminal:
  "loop_step pf lp t l = Stop c \<Longrightarrow> terminal (call_status c)"
  by (auto dest!: loop_step_Stop simp: terminal_def split: if_splits)

lemma loop_step_Stop_100:
  "loop_step pf lp t l = Stop c \<Longrightarrow> call_status c = COMPLETED \<Longrightarrow> call_progress c = Some 100"
  by (auto dest!: loop_step_Stop split: if_splits)

lemma loop_step_not_marker:
  "\<not> terminal_marker l \<Longrightarrow> loop_step pf lp t l \<noteq> Stop c"
  by (auto dest!: loop_step_Stop)

section \<open>The statuses written by one run of the supervisor\<close>

lemma progress_loop_statuses:
  "progress_loop pf lp ls = (cs, stopped) \<Longrightarrow>
     (if stopped
      then \<exists>n st. terminal st \<and> map call_status cs = replicate n RUNNING @ [st]
      else map call_status cs = replicate (length cs) RUNNING)"
proof (induction ls arbitrary: lp cs stopped)
  case Nil
  then show ?case by simp
next
  case (Cons x ls)
  obtain t l where x: "x = (t, l)" by (cases x)
  show ?case
  proof (cases "loop_step pf lp t l")
    case Skip
    with Cons.prems x have "progress_loop pf lp ls = (cs, stopped)" by simp
    then show ?thesis by (rule Cons.IH)
  next
    case (Write c v)
    obtain cs' b where r: "progress_loop pf v ls = (cs', b)" by (cases "progress_loop pf v ls")
    from loop_step_Write[OF Write] have c: "call_status c = RUNNING" by simp
    from Cons.prems x Write r have cs: "cs = c # cs'" and b: "stopped = b" by auto
    from Cons.IH[OF r] show ?thesis
      unfolding cs b using c
      apply (auto split: if_splits)
      subgoal for n st by (rule exI[of _ "Suc n"]) auto
      done
  next
    case (Stop c)
    with Cons.prems x have "stopped" and cs: "cs = [c]" by auto
    moreover from loop_step_Stop_terminal[OF Stop] have "terminal (call_status c)" .
    ultimately show ?thesis by (auto intro: exI[of _ 0])
  qed
qed

lemma get_job_apply_calls_Some:
  "get_job tbl jid = Some j \<Longrightarrow> \<exists>j'. get_job (apply_calls jid cs tbl) jid = Some j'"
proof (induction cs arbitrary: tbl j)
  case Nil then show ?case by (simp add: apply_calls_def)
next
  case (Cons a cs)
  obtain st p e t where a: "a = Call st p e t" by (cases a)
  show ?case using Cons.IH[of "update_status jid st p e t tbl"] Cons.prems
    by (simp add: apply_calls_def a get_job_update_status)
qed

lemma get_job_apply_calls:
  "get_job tbl jid = Some j \<Longrightarrow> cs \<noteq> [] \<Longrightarrow>
     map_option status (get_job (apply_calls jid cs tbl) jid) = Some (call_status (last cs))"
proof (induction cs arbitrary: tbl j rule: rev_induct)
  case Nil
  then show ?case by simp
next
  case (snoc c cs)
  obtain st p e t where c: "c = Call st p e t" by (cases c)
  from get_job_apply_calls_Some[OF snoc.prems(1)]
  obtain j' where "get_job (apply_calls jid cs tbl) jid = Some j'" by blast
  then show ?case
    by (simp add: apply_calls_def c get_job_update_status status_update_row)
qed

lemma final_status_check_running:
  "get_job tbl jid = Some j \<Longrightarrow> status j = RUNNING \<Longrightarrow>
     final_status_check jid t tbl = [Call COMPLETED (Some 100) None t]"
  by (simp add: final_status_check_def)

lemma final_status_check_not_running:
  "get_job tbl jid = Some j \<Longrightarrow> status j \<noteq> RUNNING \<Longrightarrow> final_status_check jid t tbl = []"
  by (simp add: final_status_check_def)

lemma workflow_calls_statuses:
  assumes "get_job tbl jid = Some j"
  shows "\<exists>n st. 0 < n \<and> terminal st \<and>
           map call_status (workflow_calls pf docker_ok jid t0 ls ending t1 tbl) =
             replicate n RUNNING @ [st]"
proof (cases docker_ok)
  case False
  then have "map call_status (workflow_calls pf docker_ok jid t0 ls ending t1 tbl) =
      replicate 1 RUNNING @ [FAILED]"
    by (simp add: workflow_calls_def Let_def)
  then show ?thesis unfolding terminal_def by blast
next
  case True
  obtain cs stopped where r: "progress_loop pf 0 ls = (cs, stopped)"
    by (cases "progress_loop pf 0 ls")
  let ?c0 = "Call RUNNING (Some 5) None t0"
  let ?tbl2 = "apply_calls jid (?c0 # cs) tbl"
  from get_job_apply_calls_Some[OF assms] obtain j2 where j2: "get_job ?tbl2 jid = Some j2"
    by blast
  have st2: "status j2 = call_status (last (?c0 # cs))"
    using get_job_apply_calls[OF assms, of "?c0 # cs"] j2 by simp
  show ?thesis
  proof (cases stopped)
    case stopped: True
    with progress_loop_statuses[OF r] obtain n st where
      n: "terminal st" "map call_status cs = replicate n RUNNING @ [st]" by auto
    then have "cs \<noteq> []" by auto
    then have "call_status (last cs) = st"
      using n(2) by (metis last_map last_snoc map_is_Nil_conv)
    with st2 \<open>cs \<noteq> []\<close> n(1) have "status j2 \<noteq> RUNNING" by (auto simp: terminal_def)
    then have "final_status_check jid t1 ?tbl2 = []"
      using j2 by (rule final_status_check_not_running[rotated])
    then have "map call_status (workflow_calls pf docker_ok jid t0 ls ending t1 tbl) =
        replicate (Suc n) RUNNING @ [st]"
      using True r stopped n(2) by (simp add: workflow_calls_def Let_def split: stream_end.split)
    with n(1) show ?thesis by blast
  next
    case running: False
    with progress_loop_statuses[OF r] have all: "map call_status cs = replicate (length cs) RUNNING"
      by simp
    have "call_status (last (?c0 # cs)) = RUNNING"
    proof (cases "cs = []")
      case True then show ?thesis by simp
    next
      case False
      then have "call_status (last cs) = last (map call_status cs)" by (simp add: last_map)
      also have "\<dots> = RUNNING" using all False by (metis last_replicate length_0_conv)
      finally show ?thesis using False by simp
    qed
    with st2 have "status j2 = RUNNING" by simp
    then have fin: "final_status_check jid t1 ?tbl2 = [Call COMPLETED (Some 100) None t1]"
      using j2 by (rule final_status_check_running[rotated])
    have "\<exists>st. terminal st \<and> map call_status (workflow_calls pf docker_ok jid t0 ls ending t1 tbl) =
        replicate (Suc (length cs)) RUNNING @ [st]"
      using True r running all fin
      by (cases ending) (auto simp: workflow_calls_def terminal_def Let_def)
    then show ?thesis by blast
  qed
qed

section \<open>Cancel requests during a run\<close>









lemma example_get: "get_job example_table ''j'' = Some example_job"
  by (simp add: example_table_def get_job_def)

lemma example_table_created:
  "create_job ''j'' 0 ''sol'' ''j_dem.tif'' ''{}'' [] = Inr example_table"
  by (simp add: create_job_def example_table_def example_job_def)

lemma create_job_pending:
  "create_job jid now wt dem params tbl = Inr tbl' \<Longrightarrow>
     map_option status (get_job tbl' jid) = Some PENDING"
proof -
  assume a: "create_job jid now wt dem params tbl = Inr tbl'"
  then have fresh: "jid \<notin> fst ` set tbl" by (auto simp: create_job_def split: if_splits)
  then have "map_of tbl jid = None" by (simp add: map_of_eq_None_iff)
  with a fresh show ?thesis by (auto simp: create_job_def get_job_def map_add_def split: if_splits)
qed




section \<open>Which PROGRESS lines are written\<close>

lemma remdups_adj_head: "remdups_adj (x # xs) = x # tl (remdups_adj (x # xs))"
  by (cases xs) auto

lemma remdups_adj_tl_Nil: "tl (remdups_adj (x # xs)) = [] \<longleftrightarrow> set xs \<subseteq> {x}"
proof (induction xs)
  case Nil
  then show ?case by simp
next
  case (Cons y ys)
  then show ?case using remdups_adj_head[of y ys] by auto
qed

lemma remdups_adj_tl_last:
  "tl (remdups_adj (x # xs)) \<noteq> [] \<Longrightarrow> last (tl (remdups_adj (x # xs))) = last xs"
proof -
  assume ne: "tl (remdups_adj (x # xs)) \<noteq> []"
  then have xs: "xs \<noteq> []" by auto
  have "last (tl (remdups_adj (x # xs))) = last (x # tl (remdups_adj (x # xs)))"
    using ne by (rule last_ConsR[symmetric])
  also have "\<dots> = last (remdups_adj (x # xs))"
    by (subst (2) remdups_adj_head) (rule refl)
  also have "\<dots> = last (x # xs)" by (rule last_remdups_adj)
  also have "\<dots> = last xs" using xs by simp
  finally show ?thesis .
qed

lemma percentages_Nil: "percentages pf [] = []"
  by (simp add: percentages_def)

lemma percentages_Cons:
  "percentages pf (l # ls) =
     (if startswith l ''PROGRESS:''
      then (case parse_progress pf l of None \<Rightarrow> percentages pf ls | Some v \<Rightarrow> v # percentages pf ls)
      else percentages pf ls)"
  by (simp add: percentages_def split: option.split)

lemma storable_percentages_Nil: "storable_percentages pf [] = []"
  by (simp add: storable_percentages_def percentages_Nil)

lemma storable_percentages_Cons:
  "storable_percentages pf (l # ls) =
     (if startswith l ''PROGRESS:''
      then (case parse_progress pf l of
              None \<Rightarrow> storable_percentages pf ls
            | Some v \<Rightarrow> if sqlite_integer (py_int v) then v # storable_percentages pf ls
                        else storable_percentages pf ls)
      else storable_percentages pf ls)"
  by (simp add: storable_percentages_def percentages_Cons split: option.split)

lemma loop_step_Skip:
  "loop_step pf lp t l = Skip \<Longrightarrow>
     storable_percentages pf (l # ls) = storable_percentages pf ls
     \<or> storable_percentages pf (l # ls) = lp # storable_percentages pf ls"
  by (auto simp: loop_step_def storable_percentages_Cons bindable_def
           split: if_splits option.splits)

lemma progress_loop_not_stopped:
  "\<forall>l \<in> set (map snd ls). \<not> terminal_marker l \<Longrightarrow> progress_loop pf lp ls = (cs, b) \<Longrightarrow> \<not> b"
proof (induction ls arbitrary: lp cs b)
  case Nil
  then show ?case by simp
next
  case (Cons x ls)
  obtain t l where x: "x = (t, l)" by (cases x)
  from Cons.prems x have nm: "\<not> terminal_marker l"
    and rest: "\<forall>l \<in> set (map snd ls). \<not> terminal_marker l" by auto
  show ?case
  proof (cases "loop_step pf lp t l")
    case Skip
    with Cons.prems(2) x have "progress_loop pf lp ls = (cs, b)" by simp
    from Cons.IH[OF rest this] show ?thesis .
  next
    case (Write c v)
    obtain cs' b' where r: "progress_loop pf v ls = (cs', b')" by (cases "progress_loop pf v ls")
    with Cons.prems(2) x Write have "b = b'" by simp
    with Cons.IH[OF rest r] show ?thesis by simp
  next
    case (Stop c)
    with loop_step_not_marker[OF nm] show ?thesis by blast
  qed
qed

lemma progress_loop_writes:
  "\<forall>l \<in> set (map snd ls). \<not> terminal_marker l \<Longrightarrow>
     map call_progress (fst (progress_loop pf lp ls)) =
       map (\<lambda>v. Some (py_int v)) (tl (remdups_adj (lp # storable_percentages pf (map snd ls))))"
proof (induction ls arbitrary: lp)
  case Nil
  then show ?case by (simp add: storable_percentages_Nil)
next
  case (Cons x ls)
  obtain t l where x: "x = (t, l)" by (cases x)
  from Cons.prems x have nm: "\<not> terminal_marker l"
    and rest: "\<forall>l \<in> set (map snd ls). \<not> terminal_marker l" by auto
  note IH = Cons.IH[OF rest]
  let ?ps = "storable_percentages pf (map snd ls)"
  show ?case
  proof (cases "loop_step pf lp t l")
    case Skip
    from loop_step_Skip[OF Skip, of "map snd ls"]
    have "remdups_adj (lp # storable_percentages pf (map snd (x # ls))) = remdups_adj (lp # ?ps)"
      using x by auto
    with Skip x IH[of lp] show ?thesis by simp
  next
    case (Write c v)
    from loop_step_Write[OF Write]
    have w: "startswith l ''PROGRESS:''" "parse_progress pf l = Some v" "v \<noteq> lp"
      "sqlite_integer (py_int v)" "c = Call RUNNING (Some (py_int v)) None t" by simp_all
    obtain cs b where r: "progress_loop pf v ls = (cs, b)" by (cases "progress_loop pf v ls")
    have "map call_progress (fst (progress_loop pf lp (x # ls))) =
        Some (py_int v) # map call_progress cs"
      using Write w(5) x r by simp
    also have "map call_progress cs = map (\<lambda>v. Some (py_int v)) (tl (remdups_adj (v # ?ps)))"
      using IH[of v] r by simp
    also have "Some (py_int v) # \<dots> = map (\<lambda>v. Some (py_int v)) (remdups_adj (v # ?ps))"
    proof -
      obtain r where "remdups_adj (v # ?ps) = v # r"
        using remdups_adj_head[of v ?ps] by (rule that)
      then show ?thesis by simp
    qed
    also have "remdups_adj (v # ?ps) =
        tl (remdups_adj (lp # storable_percentages pf (map snd (x # ls))))"
      using w x by (simp add: storable_percentages_Cons)
    finally show ?thesis .
  next
    case (Stop c)
    with loop_step_not_marker[OF nm] show ?thesis by blast
  qed
qed

lemma loop_step_overflow:
  "parse_progress pf l = Some v \<Longrightarrow> \<not> sqlite_integer (py_int v) \<Longrightarrow>
     startswith l ''PROGRESS:'' \<Longrightarrow> loop_step pf lp t l = Skip"
  by (simp add: loop_step_def bindable_def)

text \<open>
  Claim C6, as amended. On any line and for any \<open>last_progress\<close>, the loop writes the
  store and takes \<open>v\<close> as the new \<open>last_progress\<close> exactly when the line is a
  PROGRESS line whose payload parses to \<open>v\<close>, \<open>v\<close> differs from \<open>last_progress\<close>, and the
  integer part of \<open>v\<close> binds as a 64-bit INTEGER; there is no test that \<open>v\<close> is
  greater than 0, and a percentage that does not bind is neither stored nor taken as
  the last applied value (third conjunct). On a stream that holds no terminal marker,
  the progress values written are the percentages of the stream that the store can
  hold, with adjacent repetitions removed, starting from 0, each truncated to an integer
  (first conjunct), and every write is a RUNNING write (second conjunct). A line that
  repeats the percentage just applied is therefore not written.
\<close>

theorem progress_written_when_changed:
  assumes "\<forall>l \<in> set (map snd ls). \<not> terminal_marker l"
  shows "map call_progress (fst (progress_loop pf 0 ls)) =
           map (\<lambda>v. Some (py_int v))
             (tl (remdups_adj (0 # storable_percentages pf (map snd ls))))
       \<and> map call_status (fst (progress_loop pf 0 ls)) =
           replicate (length (fst (progress_loop pf 0 ls))) RUNNING
       \<and> ((\<exists>c. loop_step pf last_progress t l = Write c v) \<longleftrightarrow>
            startswith l ''PROGRESS:'' \<and> parse_progress pf l = Some v \<and> v \<noteq> last_progress
            \<and> sqlite_integer (py_int v))"
proof (intro conjI)
  show "map call_progress (fst (progress_loop pf 0 ls)) =
           map (\<lambda>v. Some (py_int v))
             (tl (remdups_adj (0 # storable_percentages pf (map snd ls))))"
    using assms by (rule progress_loop_writes)
  obtain cs b where r: "progress_loop pf 0 ls = (cs, b)" by (cases "progress_loop pf 0 ls")
  with assms have "\<not> b" by (rule progress_loop_not_stopped)
  with progress_loop_statuses[OF r] r
  show "map call_status (fst (progress_loop pf 0 ls)) =
           replicate (length (fst (progress_loop pf 0 ls))) RUNNING"
    by simp
  show "(\<exists>c. loop_step pf last_progress t l = Write c v) \<longleftrightarrow>
            startswith l ''PROGRESS:'' \<and> parse_progress pf l = Some v \<and> v \<noteq> last_progress
            \<and> sqlite_integer (py_int v)"
  proof
    assume "\<exists>c. loop_step pf last_progress t l = Write c v"
    then obtain c where "loop_step pf last_progress t l = Write c v" ..
    from loop_step_Write[OF this]
    show "startswith l ''PROGRESS:'' \<and> parse_progress pf l = Some v \<and> v \<noteq> last_progress
            \<and> sqlite_integer (py_int v)" by simp
  next
    assume "startswith l ''PROGRESS:'' \<and> parse_progress pf l = Some v \<and> v \<noteq> last_progress
            \<and> sqlite_integer (py_int v)"
    then show "\<exists>c. loop_step pf last_progress t l = Write c v"
      by (simp add: loop_step_def bindable_def)
  qed
qed

text \<open>
  \<^verbatim>\<open>PROGRESS: 42%\<close> twice, then \<^verbatim>\<open>PROGRESS: 1e19%\<close>, whose write raises, then
  \<^verbatim>\<open>PROGRESS: 42%\<close> again: one write.
\<close>

theorem progress_written_when_changed_witness:
  "\<not> terminal_marker ''PROGRESS: 42%''
   \<and> \<not> terminal_marker ''PROGRESS: 1e19%''
   \<and> percentages decimal_float_1e19
        [''PROGRESS: 42%'', ''PROGRESS: 42%'', ''PROGRESS: 1e19%'', ''PROGRESS: 42%'']
      = [42, 42, 10000000000000000000, 42]
   \<and> storable_percentages decimal_float_1e19
        [''PROGRESS: 42%'', ''PROGRESS: 42%'', ''PROGRESS: 1e19%'', ''PROGRESS: 42%'']
      = [42, 42, 42]
   \<and> fst (progress_loop decimal_float_1e19 0
        [(1, ''PROGRESS: 42%''), (2, ''PROGRESS: 42%''), (3, ''PROGRESS: 1e19%''),
         (4, ''PROGRESS: 42%'')]) =
       [Call RUNNING (Some 42) None 1]"
proof -
  have m: "\<not> terminal_marker ''PROGRESS: 42%''" "\<not> terminal_marker ''PROGRESS: 1e19%''"
    by (simp_all add: terminal_marker_def startswith_def)
  then have h: "\<forall>l \<in> set (map snd [(1::nat, ''PROGRESS: 42%''), (2, ''PROGRESS: 42%''),
      (3, ''PROGRESS: 1e19%''), (4, ''PROGRESS: 42%'')]). \<not> terminal_marker l"
    by simp
  have p: "percentages decimal_float_1e19
        [''PROGRESS: 42%'', ''PROGRESS: 42%'', ''PROGRESS: 1e19%'', ''PROGRESS: 42%'']
      = [42, 42, 10000000000000000000, 42]"
    by code_simp
  have s: "storable_percentages decimal_float_1e19
        [''PROGRESS: 42%'', ''PROGRESS: 42%'', ''PROGRESS: 1e19%'', ''PROGRESS: 42%'']
      = [42, 42, 42]"
    by code_simp
  have c: "fst (progress_loop decimal_float_1e19 0
        [(1, ''PROGRESS: 42%''), (2, ''PROGRESS: 42%''), (3, ''PROGRESS: 1e19%''),
         (4, ''PROGRESS: 42%'')]) =
       [Call RUNNING (Some 42) None 1]"
    by code_simp
  from progress_written_when_changed[OF h, of decimal_float_1e19]
  show ?thesis using m p s c by simp
qed

text \<open>
  Claim C6 as stated fails: after 42%, the line \<^verbatim>\<open>PROGRESS: 0%\<close> parses to 0, which is
  not greater than 0, and is written.
\<close>

theorem progress_zero_written_counterexample:
  "parse_progress decimal_float ''PROGRESS: 0%'' = Some 0
   \<and> fst (progress_loop decimal_float 0 [(1, ''PROGRESS: 42%''), (2, ''PROGRESS: 0%'')]) =
       [Call RUNNING (Some 42) None 1, Call RUNNING (Some 0) None 2]"
  by code_simp

section \<open>The stored progress\<close>

lemma get_job_apply_calls_progress:
  "get_job tbl jid = Some j \<Longrightarrow> cs \<noteq> [] \<Longrightarrow> call_progress (last cs) = Some v \<Longrightarrow>
     map_option progress (get_job (apply_calls jid cs tbl) jid) = Some v"
proof (induction cs arbitrary: tbl j rule: rev_induct)
  case Nil
  then show ?case by simp
next
  case (snoc c cs)
  obtain st p e t where c: "c = Call st p e t" by (cases c)
  from get_job_apply_calls_Some[OF snoc.prems(1)]
  obtain j' where "get_job (apply_calls jid cs tbl) jid = Some j'" by blast
  then show ?case using snoc.prems(3)
    by (simp add: apply_calls_def c get_job_update_status update_row_def set_progress_def)
qed

lemma stored_apply_calls:
  assumes "get_job tbl jid = Some j" and "cs \<noteq> []" and "call_progress (last cs) = Some v"
  shows "stored (apply_calls jid cs tbl) jid = Some (call_status (last cs), v)"
proof -
  from get_job_apply_calls_Some[OF assms(1)]
  obtain j2 where j2: "get_job (apply_calls jid cs tbl) jid = Some j2" by blast
  with get_job_apply_calls[OF assms(1,2)] get_job_apply_calls_progress[OF assms]
  show ?thesis by (simp add: stored_def)
qed

lemma progress_loop_completed_100:
  "progress_loop pf lp ls = (cs, stopped) \<Longrightarrow> c \<in> set cs \<Longrightarrow> call_status c = COMPLETED \<Longrightarrow>
     call_progress c = Some 100"
proof (induction ls arbitrary: lp cs stopped)
  case Nil
  then show ?case by simp
next
  case (Cons x ls)
  obtain t l where x: "x = (t, l)" by (cases x)
  show ?case
  proof (cases "loop_step pf lp t l")
    case Skip
    with Cons.prems(1) x have "progress_loop pf lp ls = (cs, stopped)" by simp
    from Cons.IH[OF this Cons.prems(2,3)] show ?thesis .
  next
    case (Write c' v)
    obtain cs' b where r: "progress_loop pf v ls = (cs', b)" by (cases "progress_loop pf v ls")
    with Cons.prems(1) x Write have cs: "cs = c' # cs'" by simp
    from loop_step_Write[OF Write] have "call_status c' = RUNNING" by simp
    with Cons.prems(2,3) cs have "c \<in> set cs'" by auto
    from Cons.IH[OF r this Cons.prems(3)] show ?thesis .
  next
    case (Stop c')
    with Cons.prems(1,2) x have "c = c'" by auto
    with loop_step_Stop_100[OF Stop] Cons.prems(3) show ?thesis by simp
  qed
qed

lemma workflow_calls_completed_100:
  assumes "c \<in> set (workflow_calls pf docker_ok jid t0 ls ending t1 tbl)"
    and "call_status c = COMPLETED"
  shows "call_progress c = Some 100"
proof (cases docker_ok)
  case False
  then show ?thesis using assms by (auto simp: workflow_calls_def Let_def)
next
  case True
  obtain cs stopped where r: "progress_loop pf 0 ls = (cs, stopped)"
    by (cases "progress_loop pf 0 ls")
  from assms(1) True r
  have "c = Call RUNNING (Some 5) None t0 \<or> c \<in> set cs
      \<or> c = Call COMPLETED (Some 100) None t1 \<or> (\<exists>e. c = Call FAILED None (Some e) t1)"
    by (auto simp: workflow_calls_def Let_def final_status_check_def
             split: stream_end.splits option.splits if_splits)
  then show ?thesis using assms(2) progress_loop_completed_100[OF r] by auto
qed

lemma progress_loop_stops_at_marker:
  "terminal_marker c \<Longrightarrow>
     progress_loop pf lp (pre @ (t, c) # post) = progress_loop pf lp (pre @ [(t, c)])"
proof (induction pre arbitrary: lp)
  case Nil
  then show ?case by (simp add: loop_step_marker)
next
  case (Cons x pre)
  obtain t' l where x: "x = (t', l)" by (cases x)
  show ?case using Cons x by (cases "loop_step pf lp t' l") simp_all
qed

lemma running_progress:
  assumes "get_job tbl jid = Some j"
    and "\<forall>l \<in> set (map snd seen). \<not> terminal_marker l"
  shows "stored (apply_calls jid (Call RUNNING (Some 5) None t0 # fst (progress_loop pf 0 seen)) tbl)
           jid =
         Some (RUNNING,
               if set (storable_percentages pf (map snd seen)) \<subseteq> {0} then 5
               else py_int (last (storable_percentages pf (map snd seen))))"
proof -
  let ?ps = "storable_percentages pf (map snd seen)"
  let ?w = "tl (remdups_adj (0 # ?ps))"
  let ?cs = "fst (progress_loop pf 0 seen)"
  let ?c0 = "Call RUNNING (Some 5) None t0"
  obtain cs b where r: "progress_loop pf 0 seen = (cs, b)" by (cases "progress_loop pf 0 seen")
  with assms(2) have "\<not> b" by (rule progress_loop_not_stopped)
  with progress_loop_statuses[OF r] r
  have st: "map call_status ?cs = replicate (length ?cs) RUNNING" by simp
  have pr: "map call_progress ?cs = map (\<lambda>v. Some (py_int v)) ?w"
    using assms(2) by (rule progress_loop_writes)
  show ?thesis
  proof (cases "?w = []")
    case True
    with pr have "?cs = []" by simp
    moreover from True have "set ?ps \<subseteq> {0}" using remdups_adj_tl_Nil[of 0 ?ps] by blast
    ultimately show ?thesis
      using stored_apply_calls[OF assms(1), of "[?c0]" 5] by simp
  next
    case False
    with pr have ne: "?cs \<noteq> []" by auto
    from False have ns: "\<not> set ?ps \<subseteq> {0}" using remdups_adj_tl_Nil[of 0 ?ps] by blast
    have "call_progress (last ?cs) = last (map call_progress ?cs)"
      using ne by (simp add: last_map)
    also have "\<dots> = Some (py_int (last ?w))" unfolding pr using False by (simp add: last_map)
    also have "last ?w = last ?ps" using False by (rule remdups_adj_tl_last)
    finally have p: "call_progress (last (?c0 # ?cs)) = Some (py_int (last ?ps))"
      using ne by simp
    have "call_status (last ?cs) = last (map call_status ?cs)" using ne by (simp add: last_map)
    also have "\<dots> = RUNNING" using st ne by (metis last_replicate length_0_conv)
    finally have s: "call_status (last (?c0 # ?cs)) = RUNNING" using ne by simp
    from stored_apply_calls[OF assms(1) _ p] s ns show ?thesis by simp
  qed
qed

text \<open>
  Claim C2, as amended. The supervisor writes the percentage of a PROGRESS line as it
  comes, truncated to an integer: nothing clamps it to [0,100] and nothing keeps it from
  decreasing. For an existing job, in a run that no other request interrupts:

  (1) when the run leaves the job COMPLETED, the stored progress is exactly 100 (first
  conjunct);

  (2) the lines that follow a \<^verbatim>\<open>COMPLETED:\<close> line are never read, so a late PROGRESS
  line leaves the table as it is (second conjunct);

  (3) after the first write of the run and the lines \<open>seen\<close> so far, none of them a
  terminal marker, the job is RUNNING and its stored progress is the integer part of
  the last percentage of \<open>seen\<close> that the store can hold; it is 5, the value of the
  first write, when there is no such percentage other than 0, which is the initial
  \<open>last_progress\<close> and is therefore not written (third conjunct).
\<close>

theorem completed_progress_is_100:
  assumes "get_job tbl jid = Some j"
  shows "(\<forall>j'. get_job (execute_containerized_workflow pf docker_ok jid t0 ls ending t1 tbl) jid = Some j'
            \<and> status j' = COMPLETED \<longrightarrow> progress j' = 100)
       \<and> (startswith c ''COMPLETED:'' \<longrightarrow>
            execute_containerized_workflow pf docker_ok jid t0 (pre @ (t, c) # post) ending t1 tbl =
            execute_containerized_workflow pf docker_ok jid t0 (pre @ [(t, c)]) ending t1 tbl)
       \<and> ((\<forall>l \<in> set (map snd seen). \<not> terminal_marker l) \<longrightarrow>
            stored (apply_calls jid
                      (Call RUNNING (Some 5) None t0 # fst (progress_loop pf 0 seen)) tbl) jid =
              Some (RUNNING,
                    if set (storable_percentages pf (map snd seen)) \<subseteq> {0} then 5
                    else py_int (last (storable_percentages pf (map snd seen)))))"
proof (intro conjI allI impI)
  let ?cs = "workflow_calls pf docker_ok jid t0 ls ending t1 tbl"
  fix j'
  assume a: "get_job (execute_containerized_workflow pf docker_ok jid t0 ls ending t1 tbl) jid = Some j'
      \<and> status j' = COMPLETED"
  from workflow_calls_statuses[OF assms, of pf docker_ok t0 ls ending t1]
  obtain n st where n: "map call_status ?cs = replicate n RUNNING @ [st]" by blast
  then have ne: "?cs \<noteq> []" by auto
  from get_job_apply_calls[OF assms ne] a
  have "call_status (last ?cs) = COMPLETED" by (simp add: execute_containerized_workflow_def)
  moreover have "last ?cs \<in> set ?cs" using ne by simp
  ultimately have "call_progress (last ?cs) = Some 100" by (rule workflow_calls_completed_100[rotated])
  from get_job_apply_calls_progress[OF assms ne this] a
  show "progress j' = 100" by (simp add: execute_containerized_workflow_def)
next
  assume "startswith c ''COMPLETED:''"
  then have "terminal_marker c" by (simp add: terminal_marker_def)
  then have e: "progress_loop pf 0 (pre @ (t, c) # post) = progress_loop pf 0 (pre @ [(t, c)])"
    by (rule progress_loop_stops_at_marker)
  show "execute_containerized_workflow pf docker_ok jid t0 (pre @ (t, c) # post) ending t1 tbl =
            execute_containerized_workflow pf docker_ok jid t0 (pre @ [(t, c)]) ending t1 tbl"
    unfolding execute_containerized_workflow_def workflow_calls_def e by (rule refl)
next
  assume "\<forall>l \<in> set (map snd seen). \<not> terminal_marker l"
  with assms show "stored (apply_calls jid
                      (Call RUNNING (Some 5) None t0 # fst (progress_loop pf 0 seen)) tbl) jid =
              Some (RUNNING,
                    if set (storable_percentages pf (map snd seen)) \<subseteq> {0} then 5
                    else py_int (last (storable_percentages pf (map snd seen))))"
    by (rule running_progress)
qed

text \<open>
  At the sample table: a stream with a PROGRESS line after the COMPLETED line, and the
  lines 50% and 30% seen so far.
\<close>

theorem completed_progress_is_100_witness:
  "get_job example_table ''j'' = Some example_job
   \<and> stored (execute_containerized_workflow decimal_float True ''j'' 1
        [(2, ''PROGRESS: 42%''), (3, ''COMPLETED: done''), (4, ''PROGRESS: 10%'')] Closed 5 example_table) ''j''
       = Some (COMPLETED, 100)
   \<and> startswith ''COMPLETED: done'' ''COMPLETED:''
   \<and> execute_containerized_workflow decimal_float True ''j'' 1
        [(2, ''PROGRESS: 42%''), (3, ''COMPLETED: done''), (4, ''PROGRESS: 10%'')] Closed 5 example_table
     = execute_containerized_workflow decimal_float True ''j'' 1
        [(2, ''PROGRESS: 42%''), (3, ''COMPLETED: done'')] Closed 5 example_table
   \<and> \<not> terminal_marker ''PROGRESS: 50%''
   \<and> \<not> terminal_marker ''PROGRESS: 30%''
   \<and> storable_percentages decimal_float [''PROGRESS: 50%'', ''PROGRESS: 30%''] = [50, 30]
   \<and> stored (apply_calls ''j''
        (Call RUNNING (Some 5) None 1 #
           fst (progress_loop decimal_float 0 [(2, ''PROGRESS: 50%''), (3, ''PROGRESS: 30%'')]))
        example_table) ''j'' = Some (RUNNING, 30)"
proof -
  have s: "startswith ''COMPLETED: done'' ''COMPLETED:''" by (simp add: startswith_def)
  have v: "stored (execute_containerized_workflow decimal_float True ''j'' 1
        [(2, ''PROGRESS: 42%''), (3, ''COMPLETED: done''), (4, ''PROGRESS: 10%'')] Closed 5 example_table) ''j''
       = Some (COMPLETED, 100)"
    by code_simp
  have m: "\<not> terminal_marker ''PROGRESS: 50%''" "\<not> terminal_marker ''PROGRESS: 30%''"
    by (simp_all add: terminal_marker_def startswith_def)
  have p: "storable_percentages decimal_float [''PROGRESS: 50%'', ''PROGRESS: 30%''] = [50, 30]"
    by code_simp
  have i: "py_int 30 = 30" by (simp add: py_int_def)
  from completed_progress_is_100[OF example_get, where c = "''COMPLETED: done''"
      and pre = "[(2, ''PROGRESS: 42%'')]" and t = 3 and post = "[(4, ''PROGRESS: 10%'')]"
      and pf = decimal_float and docker_ok = True and ?t0.0 = 1 and ending = Closed and ?t1.0 = 5
      and seen = "[(2, ''PROGRESS: 50%''), (3, ''PROGRESS: 30%'')]"]
  show ?thesis using s v m p i example_get by simp
qed

text \<open>
  Claim C2 as stated fails: the stream 50%, 30%, 150% is written as it comes, so the
  stored progress of the RUNNING job goes from 50 down to 30 and then up to 150.
\<close>

theorem progress_not_monotonic_counterexample:
  "workflow_calls decimal_float True ''j'' 1
      [(2, ''PROGRESS: 50%''), (3, ''PROGRESS: 30%''), (4, ''PROGRESS: 150%'')] Closed 5 example_table
   = [Call RUNNING (Some 5) None 1, Call RUNNING (Some 50) None 2, Call RUNNING (Some 30) None 3,
      Call RUNNING (Some 150) None 4, Call COMPLETED (Some 100) None 5]
   \<and> stored (apply_calls ''j'' [Call RUNNING (Some 5) None 1, Call RUNNING (Some 50) None 2]
        example_table) ''j'' = Some (RUNNING, 50)
   \<and> stored (apply_calls ''j'' [Call RUNNING (Some 5) None 1, Call RUNNING (Some 50) None 2,
        Call RUNNING (Some 30) None 3] example_table) ''j'' = Some (RUNNING, 30)
   \<and> stored (apply_calls ''j'' [Call RUNNING (Some 5) None 1, Call RUNNING (Some 50) None 2,
        Call RUNNING (Some 30) None 3, Call RUNNING (Some 150) None 4] example_table) ''j''
       = Some (RUNNING, 150)"
  by code_simp

section \<open>The text of an exit code\<close>
















section \<open>The first terminal marker of a stream decides\<close>








section \<open>The lines the generator yields\<close>






section \<open>The exit code of the container\<close>


lemma preamble_no_marker:
  "\<forall>y \<in> set [''STATUS: Container environment ready'', ''PROGRESS: 30%'',
      ''STATUS: Workflow initialization started'', ''PROGRESS: 35%'']. \<not> terminal_marker y"
  by (simp add: terminal_marker_def startswith_def)




section \<open>Timestamps\<close>

text \<open>
  Claim C3, evaluated on the code. The claim says that \<^verbatim>\<open>completed_at\<close> is written
  first-write-wins. The terminal branch of \<^verbatim>\<open>update_status\<close> writes
  \<^verbatim>\<open>completed_at = ?\<close> with no COALESCE, so of two terminal writes the second one's
  clock is what the row holds (first conjunct). The RUNNING branch does what the claim
  says for \<^verbatim>\<open>started_at\<close>: of two RUNNING writes the first one's clock stays, or the
  value the row already had (second conjunct).
\<close>

theorem completed_at_last_write_wins:
  assumes "get_job tbl jid = Some j" and "terminal st" and "terminal st'"
  shows "map_option completed_at
           (get_job (update_status jid st' p' e' t' (update_status jid st p e t tbl)) jid)
         = Some (Some t')
       \<and> map_option started_at
           (get_job (update_status jid RUNNING p' e' t' (update_status jid RUNNING p e t tbl)) jid)
         = Some (Some (case started_at j of None \<Rightarrow> t | Some s \<Rightarrow> s))"
  using assms
  by (auto simp: get_job_update_status update_row_def set_progress_def terminal_def
           split: option.splits)

text \<open>At the sample table: COMPLETED at clock 5, then FAILED at clock 9.\<close>

theorem completed_at_last_write_wins_witness:
  "get_job example_table ''j'' = Some example_job \<and> terminal COMPLETED \<and> terminal FAILED
   \<and> map_option completed_at
        (get_job (update_status ''j'' COMPLETED (Some 100) None 5 example_table) ''j'') = Some (Some 5)
   \<and> map_option completed_at
        (get_job (update_status ''j'' FAILED None (Some ''Job cancelled by user'') 9
                   (update_status ''j'' COMPLETED (Some 100) None 5 example_table)) ''j'') = Some (Some 9)"
proof -
  have h: "get_job example_table ''j'' = Some example_job"
    by (simp add: example_table_def get_job_def)
  have t: "terminal COMPLETED" "terminal FAILED" by (simp_all add: terminal_def)
  from completed_at_last_write_wins[OF h t(1) t(2), where p = "Some 100" and e = None and t = 5
      and p' = None and e' = "Some ''Job cancelled by user''" and t' = 9]
  show ?thesis using h t
    by (simp add: get_job_update_status update_row_def set_progress_def)
qed

section \<open>Deleting a job\<close>

lemma path_exists_keep: "path_exists (keep Q fs) p \<longleftrightarrow> path_exists fs p \<and> Q p"
  by (force simp: path_exists_def keep_def)

lemma glob_uploads_keep: "glob_uploads jid (keep Q fs) = filter Q (glob_uploads jid fs)"
proof -
  have "map fst (filter (\<lambda>(q, n). Q q) xs) = filter Q (map fst xs)" for xs :: "(path \<times> nat) list"
    by (induction xs) auto
  then show ?thesis by (simp add: glob_uploads_def keep_def conj_commute)
qed

lemma unremovable_keep: "unremovable (keep Q fs) = unremovable fs"
  by (simp add: keep_def)

lemma remove_path_keep:
  "unremovable fs = [] \<Longrightarrow> remove_path p fs = (None, keep (\<lambda>q. q \<noteq> p) fs)"
  by (simp add: remove_path_def keep_def)

lemma keep_keep: "keep Q (keep P fs) = keep (\<lambda>q. P q \<and> Q q) fs"
  by (simp add: keep_def case_prod_unfold conj_commute)

lemma unlink_all_keep:
  "unremovable fs = [] \<Longrightarrow> unlink_all ps fs = (None, keep (\<lambda>q. q \<notin> set ps) fs)"
proof (induction ps arbitrary: fs)
  case Nil
  then show ?case by (simp add: keep_def)
next
  case (Cons p ps)
  have "unremovable (keep (\<lambda>q. q \<noteq> p) fs) = []" using Cons.prems by (simp add: unremovable_keep)
  from Cons.IH[OF this] Cons.prems show ?case
    by (simp add: remove_path_keep keep_keep)
qed

lemma remove_if_exists_keep:
  "unremovable fs = [] \<Longrightarrow> remove_if_exists p fs = (None, keep (\<lambda>q. q \<noteq> p) fs)"
proof (cases "path_exists fs p")
  case True
  assume "unremovable fs = []"
  with True show ?thesis by (simp add: remove_if_exists_def remove_path_keep)
next
  case False
  then have "filter (\<lambda>(q, n). q \<noteq> p) (files fs) = files fs"
    by (force simp: path_exists_def filter_id_conv)
  with False show ?thesis by (simp add: remove_if_exists_def keep_def)
qed

lemma remove_artifacts_no_faults:
  assumes "unremovable fs = []"
  shows "\<exists>fs'. remove_artifacts jid fs = (None, fs')
           \<and> \<not> path_exists fs' (RESULTS_DIR, jid)
           \<and> \<not> path_exists fs' (RESULTS_DIR, jid @ ''_results.zip'')
           \<and> glob_uploads jid fs' = []"
proof -
  define f1 where "f1 = keep (\<lambda>q. q \<noteq> (RESULTS_DIR, jid)) fs"
  define f2 where "f2 = keep (\<lambda>q. q \<noteq> (RESULTS_DIR, jid @ ''_results.zip'')) f1"
  define f3 where "f3 = keep (\<lambda>q. q \<notin> set (glob_uploads jid f2)) f2"
  have u1: "unremovable f1 = []" using assms by (simp add: f1_def unremovable_keep)
  then have u2: "unremovable f2 = []" by (simp add: f2_def unremovable_keep)
  have r1: "remove_if_exists (RESULTS_DIR, jid) fs = (None, f1)"
    unfolding f1_def using assms by (rule remove_if_exists_keep)
  have r2: "remove_if_exists (RESULTS_DIR, jid @ ''_results.zip'') f1 = (None, f2)"
    unfolding f2_def using u1 by (rule remove_if_exists_keep)
  have r3: "unlink_all (glob_uploads jid f2) f2 = (None, f3)"
    unfolding f3_def using u2 by (rule unlink_all_keep)
  have r: "remove_artifacts jid fs = (None, f3)"
    by (simp add: remove_artifacts_def r1 r2 r3)
  have "\<not> path_exists f3 (RESULTS_DIR, jid)"
    by (simp add: f3_def f2_def f1_def path_exists_keep)
  moreover have "\<not> path_exists f3 (RESULTS_DIR, jid @ ''_results.zip'')"
    by (simp add: f3_def f2_def path_exists_keep)
  moreover have "glob_uploads jid f3 = []"
    by (simp add: f3_def glob_uploads_keep filter_empty_conv)
  ultimately show ?thesis using r by blast
qed

text \<open>
  Claim C4, as amended. \<^verbatim>\<open>delete_job\<close> refuses exactly the RUNNING job: the result is
  \<^verbatim>\<open>(False, "Cannot delete running job")\<close>, the endpoint answers 400, and the table and
  the files are unchanged. A job in any other status, PENDING included, is deleted: the
  row is gone from the table, and when no removal raises the result is
  \<^verbatim>\<open>(True, "")\<close> and the results directory, the results zip and every upload named
  after the job are gone.
\<close>

theorem delete_refused_only_while_running:
  assumes "get_job tbl jid = Some j"
  shows "(status j = RUNNING \<longrightarrow>
            delete_job jid (tbl, fs) = ((False, ''Cannot delete running job''), tbl, fs)
          \<and> delete_job_endpoint jid (tbl, fs) =
              (HTTPException 400 ''Cannot delete running job. Please cancel it first.'', tbl, fs))
       \<and> (status j \<noteq> RUNNING \<longrightarrow>
            get_job (fst (snd (delete_job jid (tbl, fs)))) jid = None
          \<and> (unremovable fs = [] \<longrightarrow>
               fst (delete_job jid (tbl, fs)) = (True, [])
             \<and> \<not> path_exists (snd (snd (delete_job jid (tbl, fs)))) (RESULTS_DIR, jid)
             \<and> \<not> path_exists (snd (snd (delete_job jid (tbl, fs)))) (RESULTS_DIR, jid @ ''_results.zip'')
             \<and> glob_uploads jid (snd (snd (delete_job jid (tbl, fs)))) = []))"
proof (intro conjI impI)
  assume "status j = RUNNING"
  with assms show d: "delete_job jid (tbl, fs) = ((False, ''Cannot delete running job''), tbl, fs)"
    by (simp add: delete_job_def)
  show "delete_job_endpoint jid (tbl, fs) =
      (HTTPException 400 ''Cannot delete running job. Please cancel it first.'', tbl, fs)"
    by (simp add: delete_job_endpoint_def d)
next
  assume "status j \<noteq> RUNNING"
  with assms show "get_job (fst (snd (delete_job jid (tbl, fs)))) jid = None"
    by (simp add: delete_job_def get_job_delete_row split: prod.split option.split)
next
  assume nr: "status j \<noteq> RUNNING" and nf: "unremovable fs = []"
  from remove_artifacts_no_faults[OF nf, of jid] obtain fs' where
    fs': "remove_artifacts jid fs = (None, fs')" "\<not> path_exists fs' (RESULTS_DIR, jid)"
      "\<not> path_exists fs' (RESULTS_DIR, jid @ ''_results.zip'')" "glob_uploads jid fs' = []"
    by blast
  with assms nr have d: "delete_job jid (tbl, fs) = ((True, []), delete_row jid tbl, fs')"
    by (simp add: delete_job_def)
  show "fst (delete_job jid (tbl, fs)) = (True, [])" by (simp add: d)
  show "\<not> path_exists (snd (snd (delete_job jid (tbl, fs)))) (RESULTS_DIR, jid)"
    using fs'(2) by (simp add: d)
  show "\<not> path_exists (snd (snd (delete_job jid (tbl, fs)))) (RESULTS_DIR, jid @ ''_results.zip'')"
    using fs'(3) by (simp add: d)
  show "glob_uploads jid (snd (snd (delete_job jid (tbl, fs)))) = []"
    using fs'(4) by (simp add: d)
qed

text \<open>A RUNNING job and a FAILED job, each with the sample files.\<close>

theorem delete_refused_only_while_running_witness:
  "get_job [(''j'', example_job_in RUNNING)] ''j'' = Some (example_job_in RUNNING)
   \<and> status (example_job_in RUNNING) = RUNNING
   \<and> delete_job_endpoint ''j'' ([(''j'', example_job_in RUNNING)], example_files) =
       (HTTPException 400 ''Cannot delete running job. Please cancel it first.'',
        [(''j'', example_job_in RUNNING)], example_files)
   \<and> get_job [(''j'', example_job_in FAILED)] ''j'' = Some (example_job_in FAILED)
   \<and> status (example_job_in FAILED) = FAILED
   \<and> unremovable example_files = []
   \<and> delete_job ''j'' ([(''j'', example_job_in FAILED)], example_files) =
       ((True, []), [], \<lparr>files = [((UPLOADS_DIR, ''k_dem.tif''), 4)], unremovable = []\<rparr>)"
proof -
  have r: "get_job [(''j'', example_job_in RUNNING)] ''j'' = Some (example_job_in RUNNING)"
    and f: "get_job [(''j'', example_job_in FAILED)] ''j'' = Some (example_job_in FAILED)"
    by (simp_all add: get_job_def)
  have s: "status (example_job_in RUNNING) = RUNNING" "status (example_job_in FAILED) = FAILED"
    by (simp_all add: example_job_in_def)
  have u: "unremovable example_files = []" by (simp add: example_files_def)
  have d: "delete_job ''j'' ([(''j'', example_job_in FAILED)], example_files) =
       ((True, []), [], \<lparr>files = [((UPLOADS_DIR, ''k_dem.tif''), 4)], unremovable = []\<rparr>)"
    by code_simp
  from delete_refused_only_while_running[OF r, of example_files]
    delete_refused_only_while_running[OF f, of example_files]
  show ?thesis using r f s u d by simp
qed

text \<open>
  Claim C4 as stated fails: a PENDING job, whose status is neither COMPLETED nor FAILED,
  is deleted with success.
\<close>

theorem delete_pending_job_counterexample:
  "get_job [(''j'', example_job_in PENDING)] ''j'' = Some (example_job_in PENDING)
   \<and> status (example_job_in PENDING) = PENDING
   \<and> delete_job ''j'' ([(''j'', example_job_in PENDING)], example_files) =
       ((True, []), [], \<lparr>files = [((UPLOADS_DIR, ''k_dem.tif''), 4)], unremovable = []\<rparr>)"
  by code_simp

text \<open>
  Claim C10. For an existing job that is not RUNNING the table that \<^verbatim>\<open>delete_job\<close>
  leaves is the table without the job's row, whatever the clean-up of the files does; in
  particular when the clean-up raises, \<^verbatim>\<open>delete_job\<close> returns False with the
  \<^verbatim>\<open>Database or filesystem error\<close> message and the row is gone all the same.
\<close>

theorem delete_removes_record_before_cleanup:
  assumes "get_job tbl jid = Some j" and "status j \<noteq> RUNNING"
  shows "fst (snd (delete_job jid (tbl, fs))) = delete_row jid tbl
       \<and> get_job (fst (snd (delete_job jid (tbl, fs)))) jid = None
       \<and> (\<forall>e fs'. remove_artifacts jid fs = (Some e, fs') \<longrightarrow>
            delete_job jid (tbl, fs) =
              ((False, ''Database or filesystem error: '' @ e), delete_row jid tbl, fs'))"
  using assms
  by (auto simp: delete_job_def get_job_delete_row split: prod.split option.split)

text \<open>The results directory of a FAILED job cannot be removed: failure, and the row is gone.\<close>

theorem delete_removes_record_before_cleanup_witness:
  "get_job [(''j'', example_job_in FAILED)] ''j'' = Some (example_job_in FAILED)
   \<and> status (example_job_in FAILED) \<noteq> RUNNING
   \<and> remove_artifacts ''j'' example_locked_files = (Some ''Permission denied'', example_locked_files)
   \<and> delete_job ''j'' ([(''j'', example_job_in FAILED)], example_locked_files) =
       ((False, ''Database or filesystem error: Permission denied''), [], example_locked_files)
   \<and> get_job [] ''j'' = None"
proof -
  have f: "get_job [(''j'', example_job_in FAILED)] ''j'' = Some (example_job_in FAILED)"
    by (simp add: get_job_def)
  have s: "status (example_job_in FAILED) \<noteq> RUNNING" by (simp add: example_job_in_def)
  have a: "remove_artifacts ''j'' example_locked_files = (Some ''Permission denied'', example_locked_files)"
    by code_simp
  have d: "delete_row ''j'' [(''j'', example_job_in FAILED)] = []" by (simp add: delete_row_def)
  from delete_removes_record_before_cleanup[OF f s, of example_locked_files] a
  show ?thesis using f s d by (simp add: get_job_def)
qed

section \<open>Cancelling a job\<close>

text \<open>
  Claim C5, evaluated on the code. For an existing job the endpoint refuses to cancel
  when the status is not RUNNING, and it writes a RUNNING job FAILED with the message
  \<^verbatim>\<open>Job cancelled by user\<close>; this much is as the claim says. The execution unit is
  another matter. When the job's handle is a Docker SDK container it is stopped and its
  entry is dropped. When the handle is the \<^verbatim>\<open>asyncio\<close> process that the subprocess path
  stores, \<^verbatim>\<open>stop_job_container\<close> fails on its first call and the engine is left exactly
  as it was: the entry is still in the map and the process is still running.
\<close>

theorem cancel_leaves_subprocess_running:
  assumes "get_job tbl jid = Some j"
  shows "(status j \<noteq> RUNNING \<longrightarrow>
            cancel_job_endpoint jid now (tbl, jm, eng) =
              (HTTPException 400 (''Job is not running (status: '' @ status_value (status j) @ '')''),
               tbl, jm, eng))
       \<and> (status j = RUNNING \<longrightarrow>
            fst (cancel_job_endpoint jid now (tbl, jm, eng)) = Success ''Job cancelled successfully''
          \<and> outcome (fst (snd (cancel_job_endpoint jid now (tbl, jm, eng)))) jid =
              Some (FAILED, Some ''Job cancelled by user'')
          \<and> (\<forall>pid. map_of (active_containers eng) jid = Some (AsyncioProcess pid) \<longrightarrow>
                snd (snd (snd (cancel_job_endpoint jid now (tbl, jm, eng)))) = eng)
          \<and> (\<forall>c. map_of (active_containers eng) jid = Some (DockerContainer c) \<longrightarrow>
                map_of (active_containers (snd (snd (snd (cancel_job_endpoint jid now (tbl, jm, eng)))))) jid = None
              \<and> DockerContainer c \<notin> set (running_units (snd (snd (snd (cancel_job_endpoint jid now (tbl, jm, eng))))))))"
proof (intro conjI impI allI)
  assume "status j \<noteq> RUNNING"
  with assms show "cancel_job_endpoint jid now (tbl, jm, eng) =
      (HTTPException 400 (''Job is not running (status: '' @ status_value (status j) @ '')''),
       tbl, jm, eng)"
    by (simp add: cancel_job_endpoint_def)
next
  assume r: "status j = RUNNING"
  obtain b eng' where s: "stop_job_container jid eng = (b, eng')"
    by (cases "stop_job_container jid eng")
  from assms r have c: "cancel_job jid now (tbl, jm) =
      (True, update_status jid FAILED None (Some ''Job cancelled by user'') now tbl, jm(jid := None))"
    by (simp add: cancel_job_def)
  from assms r s c have e: "cancel_job_endpoint jid now (tbl, jm, eng) =
      (Success ''Job cancelled successfully'',
       update_status jid FAILED None (Some ''Job cancelled by user'') now tbl, jm(jid := None), eng')"
    by (simp add: cancel_job_endpoint_def)
  show "fst (cancel_job_endpoint jid now (tbl, jm, eng)) = Success ''Job cancelled successfully''"
    by (simp add: e)
  show "outcome (fst (snd (cancel_job_endpoint jid now (tbl, jm, eng)))) jid =
      Some (FAILED, Some ''Job cancelled by user'')"
    using assms by (simp add: e outcome_def get_job_update_status update_row_def set_progress_def)
  {
    fix pid assume "map_of (active_containers eng) jid = Some (AsyncioProcess pid)"
    with s have "eng' = eng" by (simp add: stop_job_container_def)
    then show "snd (snd (snd (cancel_job_endpoint jid now (tbl, jm, eng)))) = eng" by (simp add: e)
  }
  {
    fix c assume "map_of (active_containers eng) jid = Some (DockerContainer c)"
    with s have eng': "eng' = eng\<lparr>active_containers := filter (\<lambda>(k, h). k \<noteq> jid) (active_containers eng),
                      running_units := removeAll (DockerContainer c) (running_units eng)\<rparr>"
      by (simp add: stop_job_container_def)
    have "map_of (filter (\<lambda>(k, h). k \<noteq> jid) xs) jid = None" for xs :: "(job_id \<times> handle) list"
      by (induction xs) auto
    then show "map_of (active_containers (snd (snd (snd (cancel_job_endpoint jid now (tbl, jm, eng)))))) jid = None"
      by (simp add: e eng')
    show "DockerContainer c \<notin> set (running_units (snd (snd (snd (cancel_job_endpoint jid now (tbl, jm, eng))))))"
      by (simp add: e eng')
  }
qed

text \<open>A RUNNING job executed on the subprocess path, process 4242.\<close>

theorem cancel_leaves_subprocess_running_witness:
  "get_job [(''j'', example_job_in RUNNING)] ''j'' = Some (example_job_in RUNNING)
   \<and> status (example_job_in RUNNING) = RUNNING
   \<and> map_of (active_containers example_engine) ''j'' = Some (AsyncioProcess 4242)
   \<and> fst (cancel_job_endpoint ''j'' 7 ([(''j'', example_job_in RUNNING)], Map.empty, example_engine))
       = Success ''Job cancelled successfully''
   \<and> outcome (fst (snd (cancel_job_endpoint ''j'' 7
         ([(''j'', example_job_in RUNNING)], Map.empty, example_engine)))) ''j''
       = Some (FAILED, Some ''Job cancelled by user'')
   \<and> snd (snd (snd (cancel_job_endpoint ''j'' 7
         ([(''j'', example_job_in RUNNING)], Map.empty, example_engine)))) = example_engine
   \<and> running_units example_engine = [AsyncioProcess 4242]"
proof -
  have r: "get_job [(''j'', example_job_in RUNNING)] ''j'' = Some (example_job_in RUNNING)"
    by (simp add: get_job_def)
  have s: "status (example_job_in RUNNING) = RUNNING" by (simp add: example_job_in_def)
  have a: "map_of (active_containers example_engine) ''j'' = Some (AsyncioProcess 4242)"
    "running_units example_engine = [AsyncioProcess 4242]"
    by (simp_all add: example_engine_def)
  from cancel_leaves_subprocess_running[OF r, of 7 Map.empty example_engine]
  show ?thesis using r s a by simp
qed

section \<open>The worker's reconnect loop\<close>

lemma start_worker_node_failing:
  "0 < reconnect_attempts cfg \<Longrightarrow> 0 \<notin> set rcs \<Longrightarrow>
     start_worker_node cfg (map Exits rcs) =
       concat (map (\<lambda>rc. [Started, Slept (reconnect_delay cfg)]) rcs) @ [Started]"
  by (induction rcs) auto

text \<open>
  Claim C8, evaluated on the code. \<^verbatim>\<open>reconnect_attempts\<close> is only tested for being
  positive; nothing counts the restarts. When it is positive and every process exits
  with a code other than 0, each exit is followed by a sleep of \<^verbatim>\<open>reconnect_delay\<close> and
  a new process, however long the list of exits is: \<open>length rcs\<close> exits give
  \<open>length rcs + 1\<close> started processes. The rest of the claim holds: after exit code 0
  nothing is restarted.
\<close>

theorem reconnects_are_not_counted:
  assumes "0 < reconnect_attempts cfg" and "0 \<notin> set rcs"
  shows "start_worker_node cfg (map Exits rcs) =
           concat (map (\<lambda>rc. [Started, Slept (reconnect_delay cfg)]) rcs) @ [Started]
       \<and> count_list (start_worker_node cfg (map Exits rcs)) Started = Suc (length rcs)
       \<and> start_worker_node cfg (Exits 0 # rs) = [Started]"
proof (intro conjI)
  show e: "start_worker_node cfg (map Exits rcs) =
           concat (map (\<lambda>rc. [Started, Slept (reconnect_delay cfg)]) rcs) @ [Started]"
    using assms by (rule start_worker_node_failing)
  have "count_list (concat (map (\<lambda>rc. [Started, Slept d]) xs) @ [Started]) Started = Suc (length xs)"
    for d and xs :: "int list"
    by (induction xs) auto
  then show "count_list (start_worker_node cfg (map Exits rcs)) Started = Suc (length rcs)"
    by (simp only: e)
  show "start_worker_node cfg (Exits 0 # rs) = [Started]" by simp
qed

text \<open>One reconnect attempt configured, three exits with code 1: three restarts.\<close>

theorem reconnects_are_not_counted_witness:
  "0 < reconnect_attempts example_worker_config
   \<and> reconnect_attempts example_worker_config = 1
   \<and> (0::int) \<notin> set [1, 1, 1]
   \<and> start_worker_node example_worker_config [Exits 1, Exits 1, Exits 1] =
       [Started, Slept 10, Started, Slept 10, Started, Slept 10, Started]
   \<and> count_list (start_worker_node example_worker_config [Exits 1, Exits 1, Exits 1]) Started = 4"
proof -
  have a: "0 < reconnect_attempts example_worker_config" "reconnect_attempts example_worker_config = 1"
    "reconnect_delay example_worker_config = 10"
    by (simp_all add: example_worker_config_def)
  have z: "(0::int) \<notin> set [1, 1, 1]" by simp
  from reconnects_are_not_counted[OF a(1) z]
  show ?thesis using a z by simp
qed

section \<open>Retention: the dry run\<close>

lemma clean_successful_dry:
  "clean_successful True js (st, fs) =
     (None, st\<lparr>successful_cleaned := successful_cleaned st + length js,
                 processed_jobs := processed_jobs st + length js\<rparr>, fs)"
proof (induction js arbitrary: st)
  case Nil
  then show ?case by simp
next
  case (Cons x js)
  obtain jid dem where x: "x = (jid, dem)" by (cases x)
  show ?case by (simp add: x Cons.IH count_successful_def)
qed

lemma clean_failed_dry:
  "clean_failed True js (st, tbl, fs) =
     (None, st\<lparr>failed_deleted := failed_deleted st + length js,
                 processed_jobs := processed_jobs st + length js\<rparr>, tbl, fs)"
proof (induction js arbitrary: st)
  case Nil
  then show ?case by simp
next
  case (Cons x js)
  obtain jid dem where x: "x = (jid, dem)" by (cases x)
  show ?case by (simp add: x Cons.IH count_failed_def)
qed

lemma size_mb_keep: "Q p \<Longrightarrow> size_mb (keep Q fs) p = size_mb fs p"
proof -
  assume q: "Q p"
  have "map_of (filter (\<lambda>(q, n). Q q) xs) p = map_of xs p" for xs :: "(path \<times> nat) list"
    using q by (induction xs) auto
  then show ?thesis by (simp add: size_mb_def keep_def)
qed

text \<open>
  Claim C9, evaluated on the code. The dry run of \<^verbatim>\<open>JobManager.cleanup_old_jobs\<close> changes
  neither the table nor the files and counts the jobs that the two queries select, but
  its \<^verbatim>\<open>space_freed_mb\<close> is always 0: the sizes are computed only in the live branch
  (first conjunct). The sibling \<^verbatim>\<open>JobCleanupManager.cleanup_job_data\<close> does what the
  claim says: its dry run changes nothing (second conjunct) and, when no removal raises,
  reports the size that the live run reports (third conjunct).
\<close>

theorem dry_run_reports_no_space:
  "cleanup_old_jobs is_before d h True now (tbl, fs) =
     (\<lparr>processed_jobs = length (eligible is_before COMPLETED (int now - 86400 * d) tbl)
                          + length (eligible is_before FAILED (int now - 3600 * h) tbl),
       successful_cleaned = length (eligible is_before COMPLETED (int now - 86400 * d) tbl),
       failed_deleted = length (eligible is_before FAILED (int now - 3600 * h) tbl),
       space_freed_mb = 0, errors = []\<rparr>, tbl, fs)
   \<and> snd (jcm_cleanup_job_data True (jid, j) keep_config (tbl, fs)) = (tbl, fs)
   \<and> (unremovable fs = [] \<longrightarrow>
        size_freed_mb (fst (jcm_cleanup_job_data True (jid, j) keep_config (tbl, fs))) =
        size_freed_mb (fst (jcm_cleanup_job_data False (jid, j) keep_config (tbl, fs))))"
proof (intro conjI impI)
  show "cleanup_old_jobs is_before d h True now (tbl, fs) =
     (\<lparr>processed_jobs = length (eligible is_before COMPLETED (int now - 86400 * d) tbl)
                          + length (eligible is_before FAILED (int now - 3600 * h) tbl),
       successful_cleaned = length (eligible is_before COMPLETED (int now - 86400 * d) tbl),
       failed_deleted = length (eligible is_before FAILED (int now - 3600 * h) tbl),
       space_freed_mb = 0, errors = []\<rparr>, tbl, fs)"
    by (simp add: cleanup_old_jobs_def Let_def clean_successful_dry clean_failed_dry)
  show "snd (jcm_cleanup_job_data True (jid, j) keep_config (tbl, fs)) = (tbl, fs)"
    by (simp add: jcm_cleanup_job_data_def jcm_free_path_def Let_def)
next
  assume nf: "unremovable fs = []"
  let ?r = "(RESULTS_DIR, jid)" and ?u = "(UPLOADS_DIR, dem_filename j)"
  let ?fs1 = "if path_exists fs ?r then keep (\<lambda>q. q \<noteq> ?r) fs else fs"
  have e: "path_exists (keep (\<lambda>q. q \<noteq> ?r) fs) ?u = path_exists fs ?u"
    by (simp add: path_exists_keep)
  have s: "size_mb (keep (\<lambda>q. q \<noteq> ?r) fs) ?u = size_mb fs ?u"
    by (rule size_mb_keep) simp
  have u: "unremovable (keep (\<lambda>q. q \<noteq> ?r) fs) = []" using nf by (simp add: unremovable_keep)
  show "size_freed_mb (fst (jcm_cleanup_job_data True (jid, j) keep_config (tbl, fs))) =
        size_freed_mb (fst (jcm_cleanup_job_data False (jid, j) keep_config (tbl, fs)))"
    using nf u e s
    by (simp add: jcm_cleanup_job_data_def jcm_free_path_def Let_def remove_path_keep)
qed

text \<open>
  One COMPLETED job past its retention with a results directory of 8 bytes: the dry run
  of \<^verbatim>\<open>cleanup_old_jobs\<close> reports 0 MB, the live run \<open>8 / 1048576\<close> MB; both count one
  job. \<^verbatim>\<open>cleanup_job_data\<close> reports the same size in both modes.
\<close>

theorem dry_run_reports_no_space_witness:
  "eligible earlier COMPLETED (int 200 - 86400 * 0) example_completed_table = [(''j'', ''j_dem.tif'')]
   \<and> space_freed_mb (fst (cleanup_old_jobs earlier 0 0 True 200 (example_completed_table, example_files))) = 0
   \<and> space_freed_mb (fst (cleanup_old_jobs earlier 0 0 False 200 (example_completed_table, example_files)))
       = 8 / (1024 * 1024)
   \<and> successful_cleaned (fst (cleanup_old_jobs earlier 0 0 True 200 (example_completed_table, example_files))) = 1
   \<and> successful_cleaned (fst (cleanup_old_jobs earlier 0 0 False 200 (example_completed_table, example_files))) = 1
   \<and> unremovable example_files = []
   \<and> size_freed_mb (fst (jcm_cleanup_job_data True (hd example_completed_table) True
        (example_completed_table, example_files))) = 12 / (1024 * 1024)
   \<and> size_freed_mb (fst (jcm_cleanup_job_data False (hd example_completed_table) True
        (example_completed_table, example_files))) = 12 / (1024 * 1024)"
proof -
  have s: "eligible earlier COMPLETED (int 200 - 86400 * 0) example_completed_table = [(''j'', ''j_dem.tif'')]"
    by code_simp
  have f: "eligible earlier FAILED (int 200 - 3600 * 0) example_completed_table = []"
    by code_simp
  have l: "space_freed_mb (fst (cleanup_old_jobs earlier 0 0 False 200 (example_completed_table, example_files)))
       = 8 / (1024 * 1024)"
    "successful_cleaned (fst (cleanup_old_jobs earlier 0 0 False 200 (example_completed_table, example_files))) = 1"
    by code_simp+
  have u: "unremovable example_files = []" by (simp add: example_files_def)
  have j: "size_freed_mb (fst (jcm_cleanup_job_data True (hd example_completed_table) True
        (example_completed_table, example_files))) = 12 / (1024 * 1024)"
    by code_simp
  have h: "hd example_completed_table =
      (''j'', example_job\<lparr>status := COMPLETED, completed_at := Some 100, progress := 100\<rparr>)"
    by (simp add: example_completed_table_def)
  from dry_run_reports_no_space[of earlier 0 0 200 example_completed_table example_files
      "''j''" "example_job\<lparr>status := COMPLETED, completed_at := Some 100, progress := 100\<rparr>" True]
  show ?thesis using s f l u j h by simp
qed

end
